theory Spec2Isabelle
  imports Complex_Main "HOL-Library.AList" "HOL-Library.Multiset" "HOL-Library.Sublist"
begin

section \<open>Python values, exceptions and the primitives the notebooks use\<close>

text \<open>
  The three agent notebooks (\<^verbatim>\<open>literature_review\<close>, \<^verbatim>\<open>hypothesis_generator\<close>,
  \<^verbatim>\<open>visualizer\<close>) pass JSON-shaped Python values between stages.  A \<open>JObj\<close> lists the
  items of a Python \<^verbatim>\<open>dict\<close> in insertion order, \<open>JNull\<close> is \<^verbatim>\<open>None\<close>.  Numbers are
  rationals: the finite values of Python's \<^verbatim>\<open>int\<close> and \<^verbatim>\<open>float\<close> (NaN and the
  infinities are left out).
\<close>

datatype json =
    JNull
  | JBool bool
  | JNum rat
  | JStr string
  | JArr "json list"
  | JObj "(string \<times> json) list"

text \<open>
  The exceptions that occur.  \<open>NotFoundError\<close> and \<open>FormatError\<close> are the two failures of
  the artifact store's \<^verbatim>\<open>load\<close>; \<open>OtherError\<close> stands for any other \<^verbatim>\<open>Exception\<close> an
  external collaborator (model, HTTP call, image library) raises.
\<close>

datatype error =
    KeyError string
  | TypeError
  | NotFoundError
  | FormatError
  | FileNotFoundError
  | FileExistsError
  | NotADirectoryError
  | OtherError string

text \<open>Python truthiness, as tested by \<^verbatim>\<open>if result:\<close>.\<close>

fun truthy :: "json \<Rightarrow> bool" where
  "truthy JNull = False"
| "truthy (JBool b) = b"
| "truthy (JNum n) = (n \<noteq> 0)"
| "truthy (JStr s) = (s \<noteq> [])"
| "truthy (JArr xs) = (xs \<noteq> [])"
| "truthy (JObj kvs) = (kvs \<noteq> [])"

text \<open>
  \<^verbatim>\<open>v[key]\<close> with a string key: only a dict can be subscripted that way; a missing key is
  a \<^verbatim>\<open>KeyError\<close>, every other value raises \<^verbatim>\<open>TypeError\<close>.
\<close>

fun subscript :: "json \<Rightarrow> string \<Rightarrow> error + json" where
  "subscript (JObj kvs) k = (case map_of kvs k of None \<Rightarrow> Inl (KeyError k) | Some v \<Rightarrow> Inr v)"
| "subscript _ k = Inl TypeError"

text \<open>
  Iterating a value, as \<^verbatim>\<open>str.join\<close> does with its argument: a list yields its elements,
  a string its characters, a dict its keys; anything else is not iterable.
\<close>

fun py_iter :: "json \<Rightarrow> error + json list" where
  "py_iter (JArr xs) = Inr xs"
| "py_iter (JStr s) = Inr (map (\<lambda>c. JStr [c]) s)"
| "py_iter (JObj kvs) = Inr (map (\<lambda>kv. JStr (fst kv)) kvs)"
| "py_iter _ = Inl TypeError"

fun str_items :: "json list \<Rightarrow> error + string list" where
  "str_items [] = Inr []"
| "str_items (JStr s # xs) = (case str_items xs of Inl e \<Rightarrow> Inl e | Inr ss \<Rightarrow> Inr (s # ss))"
| "str_items (_ # xs) = Inl TypeError"

fun join :: "string \<Rightarrow> string list \<Rightarrow> string" where
  "join sep [] = []"
| "join sep [s] = s"
| "join sep (s # t # ss) = s @ sep @ join sep (t # ss)"

text \<open>\<^verbatim>\<open>sep.join(v)\<close>: every item of the iterable must be a string.\<close>

definition py_join :: "string \<Rightarrow> json \<Rightarrow> error + string" where
  "py_join sep v =
     (case py_iter v of
        Inl e \<Rightarrow> Inl e
      | Inr xs \<Rightarrow> (case str_items xs of Inl e \<Rightarrow> Inl e | Inr ss \<Rightarrow> Inr (join sep ss)))"

text \<open>\<^verbatim>\<open>len(v)\<close> on a JSON-shaped value.\<close>

fun py_len :: "json \<Rightarrow> error + nat" where
  "py_len (JArr xs) = Inr (length xs)"
| "py_len (JStr s) = Inr (length s)"
| "py_len (JObj kvs) = Inr (length kvs)"
| "py_len _ = Inl TypeError"

text \<open>
  \<^verbatim>\<open>text.split('.')\<close>: one segment more than there are separators, empty segments kept.
\<close>

fun split_on :: "char \<Rightarrow> string \<Rightarrow> string list" where
  "split_on c [] = [[]]"
| "split_on c (x # xs) =
     (if x = c then [] # split_on c xs
      else (case split_on c xs of [] \<Rightarrow> [[x]] | s # ss \<Rightarrow> (x # s) # ss))"

text \<open>
  \<^verbatim>\<open>str.isspace\<close> on the code points below 256: TAB to CR, FS to US, space, NEL and the
  no-break space.  \<^verbatim>\<open>str.strip()\<close> removes such characters from both ends.
\<close>

definition is_space :: "char \<Rightarrow> bool" where
  "is_space c = (let n = (of_char c :: nat) in
     (9 \<le> n \<and> n \<le> 13) \<or> (28 \<le> n \<and> n \<le> 32) \<or> n = 133 \<or> n = 160)"

definition strip :: "string \<Rightarrow> string" where
  "strip s = rev (dropWhile is_space (rev (dropWhile is_space s)))"

text \<open>
  \<^verbatim>\<open>xs.sort(key=f, reverse=True)\<close>: a stable sort by descending key; items with equal
  keys keep their original order (CPython reverses, sorts stably, reverses again).
\<close>

definition sort_desc :: "('a \<Rightarrow> 'k::linorder) \<Rightarrow> 'a list \<Rightarrow> 'a list" where
  "sort_desc f xs = rev (sort_key f (rev xs))"

section \<open>Literature review: \<^verbatim>\<open>extract_key_insights\<close>\<close>

text \<open>
  The BERT encoder is an external collaborator: \<open>bert n t\<close> is the mean-pooled last
  hidden state of text \<open>t\<close> truncated to \<open>n\<close> tokens (or the exception the tokenizer or
  the model raises), \<open>cosine\<close> is \<^verbatim>\<open>torch.cosine_similarity(..).item()\<close>.
\<close>

record insights =
  key_points :: "string list"
  importance_scores :: "rat list"

text \<open>
  The loop over the sentences: a sentence that is blank after \<^verbatim>\<open>strip()\<close> is passed over;
  any other is embedded (unstripped, at most 128 tokens) and appended, stripped, with its
  score.
\<close>

fun score_sentences ::
  "(nat \<Rightarrow> string \<Rightarrow> error + 'e) \<Rightarrow> ('e \<Rightarrow> 'e \<Rightarrow> rat) \<Rightarrow> 'e \<Rightarrow> string list
     \<Rightarrow> error + (string \<times> rat) list" where
  "score_sentences bert cosine emb [] = Inr []"
| "score_sentences bert cosine emb (sentence # rest) =
     (if length (strip sentence) > 0 then
        (case bert 128 sentence of
           Inl e \<Rightarrow> Inl e
         | Inr sentence_emb \<Rightarrow>
             (case score_sentences bert cosine emb rest of
                Inl e \<Rightarrow> Inl e
              | Inr scored \<Rightarrow> Inr ((strip sentence, cosine emb sentence_emb) # scored)))
      else score_sentences bert cosine emb rest)"

text \<open>The list \<^verbatim>\<open>sentence_scores\<close> as it stands before it is sorted.\<close>

definition sentence_scores ::
  "(nat \<Rightarrow> string \<Rightarrow> error + 'e) \<Rightarrow> ('e \<Rightarrow> 'e \<Rightarrow> rat) \<Rightarrow> string \<Rightarrow> error + (string \<times> rat) list" where
  "sentence_scores bert cosine text =
     (case bert 512 text of
        Inl e \<Rightarrow> Inl e
      | Inr embeddings \<Rightarrow> score_sentences bert cosine embeddings (split_on CHR ''.'' text))"

definition extract_key_insights ::
  "(nat \<Rightarrow> string \<Rightarrow> error + 'e) \<Rightarrow> ('e \<Rightarrow> 'e \<Rightarrow> rat) \<Rightarrow> string \<Rightarrow> error + insights" where
  "extract_key_insights bert cosine text =
     (case sentence_scores bert cosine text of
        Inl e \<Rightarrow> Inl e
      | Inr scored \<Rightarrow>
          (let sentence_scores = sort_desc snd scored in
           Inr \<lparr>key_points = map fst (take 3 sentence_scores),
                importance_scores = map snd (take 3 sentence_scores)\<rparr>))"

text \<open>The sentences the loop scores: the segments that are not blank.\<close>

definition sentences_of :: "string \<Rightarrow> string list" where
  "sentences_of text = filter (\<lambda>s. strip s \<noteq> []) (split_on CHR ''.'' text)"

section \<open>Files, log and external collaborators\<close>

text \<open>
  A path is the tuple \<^verbatim>\<open>parts\<close> of a \<^verbatim>\<open>pathlib\<close> path (POSIX flavour): its components, with
  the root \<^verbatim>\<open>/\<close> as the first one when the path is absolute.  \<open>path_parts\<close> parses a
  relative path given as a string: it splits at the slashes and drops the empty components
  and the single dots.  \<open>path_div p s\<close> is \<^verbatim>\<open>p / s\<close> for such a string (the strings the
  notebooks append never begin with a slash), so \<^verbatim>\<open>OUTPUTS_DIR / 'x.json'\<close> is
  \<open>outputs_dir @ [''x.json'']\<close>.  \<open>path_str\<close> is \<^verbatim>\<open>str(path)\<close>.
\<close>

type_synonym path = "string list"

definition path_parts :: "string \<Rightarrow> path" where
  "path_parts s = filter (\<lambda>c. c \<noteq> [] \<and> c \<noteq> ''.'') (split_on CHR ''/'' s)"

definition path_div :: "path \<Rightarrow> string \<Rightarrow> path" where
  "path_div p s = p @ path_parts s"

definition path_str :: "path \<Rightarrow> string" where
  "path_str p =
     (case p of
        [] \<Rightarrow> ''.''
      | r # rest \<Rightarrow> if r = ''/'' then ''/'' @ join ''/'' rest else join ''/'' p)"

text \<open>
  A log record: \<open>LogError m e\<close> is \<^verbatim>\<open>logger.error(f'm: {str(e)}')\<close>, with the exception
  kept as a value.
\<close>

datatype log_entry = LogInfo string | LogWarning string | LogError string error

text \<open>
  The state the notebooks act on: the files (their bytes) and directories of the file
  system, the log, and the state \<open>world\<close> of the external collaborators (models,
  HTTP endpoint, image files), which each call to one of them may read and change.
\<close>

record 'w state =
  files :: "path \<rightharpoonup> string"
  dirs :: "path set"
  log :: "log_entry list"
  world :: 'w

definition log_msg :: "log_entry \<Rightarrow> 'w state \<Rightarrow> 'w state" where
  "log_msg m st = st\<lparr>log := log st @ [m]\<rparr>"

text \<open>
  What the notebooks import: \<^verbatim>\<open>OUTPUTS_DIR\<close> of \<^verbatim>\<open>utils.config\<close>, the \<^verbatim>\<open>json\<close> module
  (\<open>dumps\<close>, \<open>loads\<close>, and \<open>iterencode\<close>: the chunks \<^verbatim>\<open>json.dump(.., indent=2)\<close> writes
  one after the other), and the built-in \<^verbatim>\<open>str\<close> on JSON-shaped values.
\<close>

record env =
  outputs_dir :: path
  dumps :: "json \<Rightarrow> string"
  loads :: "string \<Rightarrow> json option"
  iterencode :: "json \<Rightarrow> string list"
  py_str :: "json \<Rightarrow> string"

type_synonym dict = "(string \<times> json) list"

text \<open>
  Modelled from the spec: \<^verbatim>\<open>load_json\<close> of \<^verbatim>\<open>utils.helpers\<close>, the artifact store's
  \<^verbatim>\<open>load(name)\<close>.  It fails with \<open>NotFoundError\<close> if the artifact does not exist and with
  \<open>FormatError\<close> if the content is not a well-formed keyed mapping.
\<close>

definition load_json :: "env \<Rightarrow> path \<Rightarrow> 'w state \<Rightarrow> error + dict" where
  "load_json env p st =
     (case files st p of
        None \<Rightarrow> Inl NotFoundError
      | Some bytes \<Rightarrow>
          (case loads env bytes of Some (JObj kvs) \<Rightarrow> Inr kvs | _ \<Rightarrow> Inl FormatError))"

text \<open>
  Modelled from the spec: \<^verbatim>\<open>save_json\<close> of \<^verbatim>\<open>utils.helpers\<close>, the artifact store's
  \<^verbatim>\<open>save(name, mapping)\<close>.  It creates parent directories as needed and replaces any
  prior artifact of the same name completely, in one step.
\<close>

definition save_json :: "env \<Rightarrow> dict \<Rightarrow> path \<Rightarrow> 'w state \<Rightarrow> 'w state" where
  "save_json env d p st =
     st\<lparr>files := (files st)(p \<mapsto> dumps env (JObj d)),
        dirs := dirs st \<union> set (prefixes (butlast p))\<rparr>"

section \<open>Literature review: \<^verbatim>\<open>analyze_papers\<close>\<close>

text \<open>
  A paper as \<^verbatim>\<open>load_research_papers\<close> yields it.  The transform \<open>tr\<close> stands for the call
  \<^verbatim>\<open>extract_key_insights(paper['content'])\<close>: it returns a value or raises, and may change
  the world.
\<close>

record paper =
  title :: string
  content :: string

type_synonym 'w transform = "'w \<Rightarrow> string \<Rightarrow> (error + json) \<times> 'w"

text \<open>
  The dict display stored for a paper; its two subscripts are evaluated left to right and
  either may raise.
\<close>

definition insights_entry :: "json \<Rightarrow> error + json" where
  "insights_entry ins =
     (case subscript ins ''key_points'' of
        Inl e \<Rightarrow> Inl e
      | Inr kp \<Rightarrow>
          (case subscript ins ''importance_scores'' of
             Inl e \<Rightarrow> Inl e
           | Inr sc \<Rightarrow> Inr (JObj [(''key_insights'', kp), (''importance_scores'', sc)])))"

text \<open>The \<^verbatim>\<open>try\<close> block of the loop body, up to the value to store.\<close>

definition try_analyze :: "'w transform \<Rightarrow> 'w \<Rightarrow> paper \<Rightarrow> (error + json) \<times> 'w" where
  "try_analyze tr w p =
     (case tr w (content p) of
        (Inl e, w') \<Rightarrow> (Inl e, w')
      | (Inr ins, w') \<Rightarrow> (insights_entry ins, w'))"

text \<open>One iteration: store and log the success, or log the exception and go on.\<close>

definition analyze_paper ::
  "'w transform \<Rightarrow> paper \<Rightarrow> dict \<times> 'w state \<Rightarrow> dict \<times> 'w state" where
  "analyze_paper tr p acc =
     (case acc of (analysis_results, st) \<Rightarrow>
        (case try_analyze tr (world st) p of
           (Inr entry, w') \<Rightarrow>
             (AList.update (title p) entry analysis_results,
              log_msg (LogInfo (''Successfully analyzed paper: '' @ title p)) (st\<lparr>world := w'\<rparr>))
         | (Inl e, w') \<Rightarrow>
             (analysis_results,
              log_msg (LogError (''Error analyzing paper '' @ title p) e) (st\<lparr>world := w'\<rparr>))))"

fun analyze_loop ::
  "'w transform \<Rightarrow> paper list \<Rightarrow> dict \<times> 'w state \<Rightarrow> dict \<times> 'w state" where
  "analyze_loop tr [] acc = acc"
| "analyze_loop tr (p # ps) acc = analyze_loop tr ps (analyze_paper tr p acc)"

definition literature_path :: "env \<Rightarrow> path" where
  "literature_path env = outputs_dir env @ [''literature_analysis.json'']"

definition analyze_papers ::
  "env \<Rightarrow> 'w transform \<Rightarrow> paper list \<Rightarrow> 'w state \<Rightarrow> dict \<times> 'w state" where
  "analyze_papers env tr papers st0 =
     (let st1 = log_msg (LogInfo ''Starting paper analysis'') st0 in
      if papers = [] then
        ([], log_msg (LogWarning ''No papers found in research directory'') st1)
      else
        (case analyze_loop tr papers ([], st1) of
           (analysis_results, st2) \<Rightarrow>
             (analysis_results,
              log_msg (LogInfo (''Saved analysis results to '' @ path_str (literature_path env)))
                (save_json env analysis_results (literature_path env) st2))))"

section \<open>Hypothesis generator\<close>

text \<open>The text of the prompt, an f-string over eleven lines indented by eight blanks.\<close>

definition nl :: string where
  "nl = [CHR 0x0A]"

definition ind :: string where
  "ind = replicate 8 CHR '' ''"

definition hypothesis_prompt :: "string \<Rightarrow> string" where
  "hypothesis_prompt context = concat
     [nl,
      ind, ''Based on the following research context, generate a novel and testable scientific hypothesis:'', nl,
      ind, nl,
      ind, ''Context:'', nl,
      ind, context, nl,
      ind, nl,
      ind, ''Please provide:'', nl,
      ind, ''1. A clear hypothesis statement'', nl,
      ind, ''2. The rationale behind it'', nl,
      ind, ''3. Potential experimental approaches to test it'', nl,
      ind]"

text \<open>
  \<^verbatim>\<open>DeepSeekAPI.generate_hypothesis\<close>.  \<open>post w prompt\<close> stands for the request to the
  completions endpoint with that prompt, \<^verbatim>\<open>raise_for_status()\<close> and \<^verbatim>\<open>response.json()\<close>:
  the decoded body, or the exception one of the three raises.  The method catches every
  exception, logs it and returns \<^verbatim>\<open>None\<close>.
\<close>

definition generate_hypothesis ::
  "'w transform \<Rightarrow> string \<Rightarrow> 'w state \<Rightarrow> json \<times> 'w state" where
  "generate_hypothesis post context st =
     (case post (world st) (hypothesis_prompt context) of
        (Inr response, w') \<Rightarrow> (response, st\<lparr>world := w'\<rparr>)
      | (Inl e, w') \<Rightarrow>
          (JNull, log_msg (LogError ''Error in DeepSeek API call'' e) (st\<lparr>world := w'\<rparr>)))"

text \<open>\<^verbatim>\<open>"\n".join(analysis['key_insights'])\<close>, which raises on an entry of another shape.\<close>

definition context_of :: "json \<Rightarrow> error + string" where
  "context_of analysis =
     (case subscript analysis ''key_insights'' of
        Inl e \<Rightarrow> Inl e
      | Inr ki \<Rightarrow> py_join nl ki)"

text \<open>
  The loop of \<^verbatim>\<open>generate_hypotheses\<close> over the items of the loaded dict.  It has no
  \<^verbatim>\<open>try\<close>: an exception of the context preparation leaves the loop and the function.
\<close>

fun hypotheses_loop ::
  "'w transform \<Rightarrow> dict \<Rightarrow> dict \<Rightarrow> 'w state \<Rightarrow> (error + dict) \<times> 'w state" where
  "hypotheses_loop post [] hypotheses st = (Inr hypotheses, st)"
| "hypotheses_loop post ((paper_title, analysis) # rest) hypotheses st =
     (case context_of analysis of
        Inl e \<Rightarrow> (Inl e, st)
      | Inr context \<Rightarrow>
          (case generate_hypothesis post context st of
             (result, st') \<Rightarrow>
               if truthy result then
                 hypotheses_loop post rest
                   (AList.update paper_title
                      (JObj [(''context'', JStr context), (''generated_hypothesis'', result)])
                      hypotheses)
                   (log_msg (LogInfo (''Generated hypothesis for paper: '' @ paper_title)) st')
               else hypotheses_loop post rest hypotheses st'))"

definition hypotheses_path :: "env \<Rightarrow> path" where
  "hypotheses_path env = outputs_dir env @ [''generated_hypotheses.json'']"

definition generate_hypotheses ::
  "env \<Rightarrow> 'w transform \<Rightarrow> 'w state \<Rightarrow> (error + dict) \<times> 'w state" where
  "generate_hypotheses env post st0 =
     (let st1 = log_msg (LogInfo ''Starting hypothesis generation'') st0 in
      case load_json env (literature_path env) st1 of
        Inl e \<Rightarrow> (Inr [], log_msg (LogError ''Error loading literature analysis'' e) st1)
      | Inr literature_analysis \<Rightarrow>
          (case hypotheses_loop post literature_analysis [] st1 of
             (Inl e, st2) \<Rightarrow> (Inl e, st2)
           | (Inr hypotheses, st2) \<Rightarrow>
               (Inr hypotheses,
                log_msg (LogInfo (''Saved generated hypotheses to '' @ path_str (hypotheses_path env)))
                  (save_json env hypotheses (hypotheses_path env) st2))))"

section \<open>Visualizer\<close>

text \<open>
  The Stable Diffusion pipeline is external: \<open>sd_load\<close> is the constructor of
  \<^verbatim>\<open>VisualizationGenerator\<close>, \<open>sd_render w prompt path\<close> is
  \<^verbatim>\<open>self.pipeline(prompt).images[0].save(path)\<close>.  The image files live in the world; they
  end in \<^verbatim>\<open>.png\<close> and are no artifact of \<open>files\<close>.
\<close>

record 'w diffusion =
  sd_load :: "'w \<Rightarrow> (error + unit) \<times> 'w"
  sd_render :: "'w \<Rightarrow> string \<Rightarrow> path \<Rightarrow> (error + unit) \<times> 'w"

text \<open>\<^verbatim>\<open>generate_visualization\<close>: the path on success, \<^verbatim>\<open>None\<close> after a logged exception.\<close>

definition generate_visualization ::
  "'w diffusion \<Rightarrow> string \<Rightarrow> path \<Rightarrow> 'w state \<Rightarrow> path option \<times> 'w state" where
  "generate_visualization sd prompt output_path st =
     (case sd_render sd (world st) prompt output_path of
        (Inr u, w') \<Rightarrow> (Some output_path, st\<lparr>world := w'\<rparr>)
      | (Inl e, w') \<Rightarrow>
          (None, log_msg (LogError ''Error generating visualization'' e) (st\<lparr>world := w'\<rparr>)))"

text \<open>
  \<^verbatim>\<open>vis_dir.mkdir(exist_ok=True)\<close>, without \<^verbatim>\<open>parents\<close>.  \<open>mkdir_error\<close> is the exception
  it raises, if any: a directory that exists already is accepted, a regular file in its
  place is a \<^verbatim>\<open>FileExistsError\<close>; otherwise the parent must be a directory (the current
  directory \<open>[]\<close> and the root always are), a file in the parent's place is a
  \<^verbatim>\<open>NotADirectoryError\<close> and a missing parent a \<^verbatim>\<open>FileNotFoundError\<close>.
\<close>

definition mkdir_error :: "path \<Rightarrow> 'w state \<Rightarrow> error option" where
  "mkdir_error p st =
     (if p \<in> dirs st then None
      else if files st p \<noteq> None then Some FileExistsError
      else if butlast p = [] \<or> butlast p = [''/''] \<or> butlast p \<in> dirs st then None
      else if files st (butlast p) \<noteq> None then Some NotADirectoryError
      else Some FileNotFoundError)"

definition mkdir_exist_ok :: "path \<Rightarrow> 'w state \<Rightarrow> error + 'w state" where
  "mkdir_exist_ok p st =
     (case mkdir_error p st of
        Some e \<Rightarrow> Inl e
      | None \<Rightarrow> Inr (st\<lparr>dirs := insert p (dirs st)\<rparr>))"

text \<open>Decimal digits of a length, as the f-string prints it.\<close>

fun show_nat :: "nat \<Rightarrow> string" where
  "show_nat n =
     (if n < 10 then [char_of (48 + n)] else show_nat (n div 10) @ [char_of (48 + n mod 10)])"

definition vis_dir :: "env \<Rightarrow> path" where
  "vis_dir env = outputs_dir env @ [''visualizations'']"

text \<open>The first loop, over the hypotheses (\<open>ttl\<close> is the loop variable \<^verbatim>\<open>title\<close>).\<close>

fun hypothesis_vis_loop ::
  "env \<Rightarrow> 'w diffusion \<Rightarrow> dict \<Rightarrow> dict \<Rightarrow> 'w state \<Rightarrow> (error + dict) \<times> 'w state" where
  "hypothesis_vis_loop env sd [] visualization_results st = (Inr visualization_results, st)"
| "hypothesis_vis_loop env sd ((ttl, data) # rest) visualization_results st =
     (case subscript data ''generated_hypothesis'' of
        Inl e \<Rightarrow> (Inl e, st)
      | Inr hypothesis \<Rightarrow>
          (let prompt = ''Scientific visualization of hypothesis: '' @ py_str env hypothesis;
               output_path = path_div (vis_dir env) (''hypothesis_'' @ ttl @ ''.png'')
           in case generate_visualization sd prompt output_path st of
                (Some p, st') \<Rightarrow>
                  hypothesis_vis_loop env sd rest
                    (AList.update (''hypothesis_'' @ ttl) (JStr (path_str output_path))
                       visualization_results) st'
              | (None, st') \<Rightarrow> hypothesis_vis_loop env sd rest visualization_results st'))"

text \<open>The second loop, over the experimental results.\<close>

fun results_vis_loop ::
  "env \<Rightarrow> 'w diffusion \<Rightarrow> dict \<Rightarrow> dict \<Rightarrow> 'w state \<Rightarrow> (error + dict) \<times> 'w state" where
  "results_vis_loop env sd [] visualization_results st = (Inr visualization_results, st)"
| "results_vis_loop env sd ((dataset, results) # rest) visualization_results st =
     (case subscript results ''feature_importance'' of
        Inl e \<Rightarrow> (Inl e, st)
      | Inr feature_importance \<Rightarrow>
          (case py_len feature_importance of
             Inl e \<Rightarrow> (Inl e, st)
           | Inr n \<Rightarrow>
               (let prompt = ''Scientific data visualization showing relationship between ''
                               @ show_nat n @ '' features'';
                    output_path = path_div (vis_dir env) (''results_'' @ dataset @ ''.png'')
                in case generate_visualization sd prompt output_path st of
                     (Some p, st') \<Rightarrow>
                       results_vis_loop env sd rest
                         (AList.update (''results_'' @ dataset) (JStr (path_str output_path))
                            visualization_results) st'
                   | (None, st') \<Rightarrow> results_vis_loop env sd rest visualization_results st')))"

text \<open>
  \<^verbatim>\<open>with open(metadata_path, 'w') as f: json.dump(visualization_results, f, indent=2)\<close>.
  Opening for writing truncates the file; \<^verbatim>\<open>json.dump\<close> then writes the chunks of the
  encoder one after the other.
\<close>

definition open_w :: "path \<Rightarrow> 'w state \<Rightarrow> 'w state" where
  "open_w p st = st\<lparr>files := (files st)(p \<mapsto> [])\<rparr>"

definition fwrite :: "path \<Rightarrow> string \<Rightarrow> 'w state \<Rightarrow> 'w state" where
  "fwrite p chunk st =
     st\<lparr>files := (files st)(p \<mapsto> (case files st p of None \<Rightarrow> chunk | Some b \<Rightarrow> b @ chunk))\<rparr>"

definition write_chunks :: "path \<Rightarrow> string list \<Rightarrow> 'w state \<Rightarrow> 'w state" where
  "write_chunks p chunks st = foldl (\<lambda>s c. fwrite p c s) st chunks"

definition json_dump_file :: "env \<Rightarrow> dict \<Rightarrow> path \<Rightarrow> 'w state \<Rightarrow> 'w state" where
  "json_dump_file env d p st = write_chunks p (iterencode env (JObj d)) (open_w p st)"

text \<open>
  The states an interruption can leave behind: the file opened and only the first \<open>n\<close>
  chunks written, for every \<open>n\<close> below the number of chunks.
\<close>

definition interrupted_dumps :: "env \<Rightarrow> dict \<Rightarrow> path \<Rightarrow> 'w state \<Rightarrow> 'w state list" where
  "interrupted_dumps env d p st =
     map (\<lambda>n. write_chunks p (take n (iterencode env (JObj d))) (open_w p st))
       [0 ..< length (iterencode env (JObj d))]"

definition experimental_path :: "env \<Rightarrow> path" where
  "experimental_path env = outputs_dir env @ [''experimental_analysis.json'']"

definition metadata_path :: "env \<Rightarrow> path" where
  "metadata_path env = vis_dir env @ [''visualization_metadata.json'']"

text \<open>The two loads in one \<^verbatim>\<open>try\<close>: the first exception is the one caught.\<close>

definition load_results :: "env \<Rightarrow> 'w state \<Rightarrow> error + dict \<times> dict" where
  "load_results env st =
     (case load_json env (hypotheses_path env) st of
        Inl e \<Rightarrow> Inl e
      | Inr hypotheses \<Rightarrow>
          (case load_json env (experimental_path env) st of
             Inl e \<Rightarrow> Inl e
           | Inr analysis \<Rightarrow> Inr (hypotheses, analysis)))"

definition generate_visualizations ::
  "env \<Rightarrow> 'w diffusion \<Rightarrow> 'w state \<Rightarrow> (error + dict) \<times> 'w state" where
  "generate_visualizations env sd st0 =
     (let st1 = log_msg (LogInfo ''Starting visualization generation'') st0 in
      case mkdir_exist_ok (vis_dir env) st1 of
        Inl e \<Rightarrow> (Inl e, st1)
      | Inr st2 \<Rightarrow>
          (case load_results env st2 of
             Inl e \<Rightarrow> (Inr [], log_msg (LogError ''Error loading results'' e) st2)
           | Inr (hypotheses, analysis) \<Rightarrow>
               (case sd_load sd (world st2) of
                  (Inl e, w') \<Rightarrow> (Inl e, st2\<lparr>world := w'\<rparr>)
                | (Inr u, w') \<Rightarrow>
                    (case hypothesis_vis_loop env sd hypotheses [] (st2\<lparr>world := w'\<rparr>) of
                       (Inl e, st3) \<Rightarrow> (Inl e, st3)
                     | (Inr results1, st3) \<Rightarrow>
                         (case results_vis_loop env sd analysis results1 st3 of
                            (Inl e, st4) \<Rightarrow> (Inl e, st4)
                          | (Inr visualization_results, st4) \<Rightarrow>
                              (Inr visualization_results,
                               log_msg (LogInfo (''Saved visualization metadata to ''
                                                  @ path_str (metadata_path env)))
                                 (json_dump_file env visualization_results (metadata_path env)
                                    st4)))))))"

section \<open>Observations on a run, and sample inputs\<close>

text \<open>
  The attempts of the literature loop in order: each paper with what its \<^verbatim>\<open>try\<close> block
  came to, the world being handed from one call of the transform to the next.
\<close>

fun attempts :: "'w transform \<Rightarrow> 'w \<Rightarrow> paper list \<Rightarrow> (paper \<times> (error + json)) list" where
  "attempts tr w [] = []"
| "attempts tr w (p # ps) =
     (case try_analyze tr w p of (r, w') \<Rightarrow> (p, r) # attempts tr w' ps)"

fun is_error :: "log_entry \<Rightarrow> bool" where
  "is_error (LogError m e) = True"
| "is_error _ = False"

text \<open>What a list of attempts stores, and the record each attempt adds to the log.\<close>

fun stored :: "dict \<Rightarrow> (paper \<times> (error + json)) list \<Rightarrow> dict" where
  "stored d [] = d"
| "stored d ((p, Inr v) # as) = stored (AList.update (title p) v d) as"
| "stored d ((p, Inl e) # as) = stored d as"

fun attempt_log :: "paper \<times> (error + json) \<Rightarrow> log_entry" where
  "attempt_log (p, Inr v) = LogInfo (''Successfully analyzed paper: '' @ title p)"
| "attempt_log (p, Inl e) = LogError (''Error analyzing paper '' @ title p) e"

text \<open>
  The contexts of the entries of a literature analysis, if each of them can be prepared:
  the first exception otherwise.
\<close>

fun contexts_of :: "dict \<Rightarrow> error + string list" where
  "contexts_of [] = Inr []"
| "contexts_of ((k, analysis) # rest) =
     (case context_of analysis of
        Inl e \<Rightarrow> Inl e
      | Inr c \<Rightarrow> (case contexts_of rest of Inl e \<Rightarrow> Inl e | Inr cs \<Rightarrow> Inr (c # cs)))"

text \<open>A sample encoder, similarity and text for \<^verbatim>\<open>extract_key_insights\<close>.\<close>

definition demo_bert :: "nat \<Rightarrow> string \<Rightarrow> error + nat" where
  "demo_bert n t = Inr (min n (length t))"

definition demo_cosine :: "nat \<Rightarrow> nat \<Rightarrow> rat" where
  "demo_cosine a b = of_nat b / of_nat a"

definition demo_text :: string where
  "demo_text = ''ab. c .  . defg.hij''"

text \<open>A call of a collaborator that raised or returned a falsy value.\<close>

definition fails_or_empty :: "(error + json) \<times> 'w \<Rightarrow> bool" where
  "fails_or_empty x = (case fst x of Inl e \<Rightarrow> True | Inr r \<Rightarrow> \<not> truthy r)"

text \<open>The transform that raises \<open>e0\<close> wherever \<open>tr\<close> returns a falsy value, and is \<open>tr\<close> otherwise.\<close>

definition raise_if_falsy :: "error \<Rightarrow> 'w transform \<Rightarrow> 'w transform" where
  "raise_if_falsy e0 tr w x =
     (case tr w x of
        (Inr r, w') \<Rightarrow> if truthy r then (Inr r, w') else (Inl e0, w')
      | (Inl e, w') \<Rightarrow> (Inl e, w'))"

text \<open>A deterministic transform: what it returns depends on its input only, not on the world.\<close>

definition deterministic :: "'w transform \<Rightarrow> bool" where
  "deterministic tr = (\<forall>w w' x. fst (tr w x) = fst (tr w' x))"

text \<open>Two outcomes of a \<^verbatim>\<open>try\<close> block that the loop cannot tell apart: the same value, or an exception each.\<close>

fun same_outcome :: "error + 'a \<Rightarrow> error + 'a \<Rightarrow> bool" where
  "same_outcome (Inr v) y = (y = Inr v)"
| "same_outcome (Inl e) y = (\<exists>e'. y = Inl e')"

text \<open>What the hypothesis loop sees of a call of the endpoint: the response if it is truthy.\<close>

fun api_seen :: "error + json \<Rightarrow> json option" where
  "api_seen (Inr r) = (if truthy r then Some r else None)"
| "api_seen (Inl e) = None"




text \<open>A deterministic image pipeline.\<close>

definition render_deterministic :: "'w diffusion \<Rightarrow> bool" where
  "render_deterministic sd =
     ((\<forall>w w'. fst (sd_load sd w) = fst (sd_load sd w'))
      \<and> (\<forall>w w' prompt p. fst (sd_render sd w prompt p) = fst (sd_render sd w' prompt p)))"

text \<open>The state of the visualizer once it has logged its start and made its directory.\<close>

definition vis_started :: "env \<Rightarrow> 'w state \<Rightarrow> 'w state" where
  "vis_started env st =
     (log_msg (LogInfo ''Starting visualization generation'') st)
       \<lparr>dirs := insert (vis_dir env) (dirs st)\<rparr>"

text \<open>
  Sample inputs.  The world of the samples is the list of the inputs the collaborator has
  been called with, so it shows which calls were made and in which order.  The sample
  JSON library decodes the texts given here; its \<open>dumps\<close> tells the empty document from
  the others and its \<open>iterencode\<close> knows the chunks of the sample metadata.  In
  \<open>broken_lit\<close> the second entry has no \<^verbatim>\<open>key_insights\<close>.
\<close>

definition sample_lit :: dict where
  "sample_lit =
     [(''PaperA'', JObj [(''key_insights'', JArr [JStr ''a1'', JStr ''a2'']),
                         (''importance_scores'', JArr [JNum 1, JNum (1 / 2)])]),
      (''PaperB'', JObj [(''key_insights'', JArr [JStr ''b1'']),
                         (''importance_scores'', JArr [JNum 1])]),
      (''PaperC'', JObj [(''key_insights'', JArr [JStr ''c1'']),
                         (''importance_scores'', JArr [JNum 1])])]"

definition sample_lit_text :: string where
  \<open>sample_lit_text = ''{"PaperA": {"key_insights": ["a1", "a2"], "importance_scores": [1.0, 0.5]}, "PaperB": {"key_insights": ["b1"], "importance_scores": [1.0]}, "PaperC": {"key_insights": ["c1"], "importance_scores": [1.0]}}''\<close>

definition sample_hyps :: dict where
  "sample_hyps =
     [(''PaperA'', JObj [(''context'', JStr ''a1''),
                         (''generated_hypothesis'', JObj [(''text'', JStr ''H'')])])]"

definition sample_hyps_text :: string where
  \<open>sample_hyps_text = ''{"PaperA": {"context": "a1", "generated_hypothesis": {"text": "H"}}}''\<close>

definition sample_exp :: dict where
  "sample_exp =
     [(''trial1'', JObj [(''feature_importance'',
                          JObj [(''dose'', JNum (7 / 10)), (''age'', JNum (3 / 10))])])]"

definition sample_exp_text :: string where
  \<open>sample_exp_text = ''{"trial1": {"feature_importance": {"dose": 0.7, "age": 0.3}}}''\<close>

definition sample_meta :: dict where
  "sample_meta =
     [(''hypothesis_PaperA'', JStr ''data/outputs/visualizations/hypothesis_PaperA.png''),
      (''results_trial1'', JStr ''data/outputs/visualizations/results_trial1.png'')]"

definition sample_meta_chunks :: "string list" where
  \<open>sample_meta_chunks =
     [''{'', [CHR 0x0A] @ ''  '', ''"hypothesis_PaperA"'', '': '',
      ''"data/outputs/visualizations/hypothesis_PaperA.png"'', '','' @ [CHR 0x0A] @ ''  '',
      ''"results_trial1"'', '': '', ''"data/outputs/visualizations/results_trial1.png"'',
      [CHR 0x0A], ''}'']\<close>

definition sample_old_meta_text :: string where
  \<open>sample_old_meta_text = ''{"hypothesis_Old": "data/outputs/visualizations/hypothesis_Old.png"}''\<close>

definition broken_lit :: dict where
  "broken_lit =
     [(''P1'', JObj [(''key_insights'', JArr [JStr ''a1'']),
                     (''importance_scores'', JArr [JNum 1])]),
      (''P2'', JObj [(''importance_scores'', JArr [JNum 1])]),
      (''P3'', JObj [(''key_insights'', JArr [JStr ''c1'']),
                     (''importance_scores'', JArr [JNum 1])])]"

definition broken_lit_text :: string where
  \<open>broken_lit_text = ''{"P1": {"key_insights": ["a1"], "importance_scores": [1.0]}, "P2": {"importance_scores": [1.0]}, "P3": {"key_insights": ["c1"], "importance_scores": [1.0]}}''\<close>

definition sample_loads :: "string \<Rightarrow> json option" where
  "sample_loads b =
     (if b = sample_lit_text then Some (JObj sample_lit)
      else if b = broken_lit_text then Some (JObj broken_lit)
      else if b = sample_hyps_text then Some (JObj sample_hyps)
      else if b = sample_exp_text then Some (JObj sample_exp)
      else if b = ''{}'' then Some (JObj [])
      else None)"

definition sample_dumps :: "json \<Rightarrow> string" where
  "sample_dumps j = (if j = JObj [] then ''{}'' else ''{...}'')"

definition sample_iterencode :: "json \<Rightarrow> string list" where
  "sample_iterencode j = (if j = JObj sample_meta then sample_meta_chunks else [''{}''])"

definition sample_env :: env where
  "sample_env =
     \<lparr>outputs_dir = [''data'', ''outputs''], dumps = sample_dumps, loads = sample_loads,
      iterencode = sample_iterencode, py_str = (\<lambda>j. ''s'')\<rparr>"

definition sample_sd :: "string list diffusion" where
  "sample_sd =
     \<lparr>sd_load = (\<lambda>w. (Inr (), w)), sd_render = (\<lambda>w prompt p. (Inr (), w @ [path_str p]))\<rparr>"

definition sample_post :: "string list transform" where
  "sample_post w prompt =
     (if prompt = hypothesis_prompt ''b1'' then Inl (OtherError ''503'')
      else Inr (JObj [(''text'', JStr ''H'')]), w @ [prompt])"

definition sample_post_ok :: "string list transform" where
  "sample_post_ok w prompt = (Inr (JObj [(''text'', JStr ''H'')]), w @ [prompt])"

text \<open>A transform, an endpoint and a pipeline that serve no item: they raise or return a falsy value.\<close>

definition sample_tr_none :: "string list transform" where
  "sample_tr_none w c =
     (if c = ''bad'' then Inl (OtherError ''out of memory'') else Inr JNull, w @ [c])"

definition sample_post_none :: "string list transform" where
  "sample_post_none w prompt =
     (if prompt = hypothesis_prompt ''b1'' then Inl (OtherError ''503'') else Inr (JObj []),
      w @ [prompt])"

definition sample_sd_fail :: "string list diffusion" where
  "sample_sd_fail =
     \<lparr>sd_load = (\<lambda>w. (Inr (), w)),
      sd_render = (\<lambda>w prompt p. (Inl (OtherError ''no device''), w))\<rparr>"

definition sample_state :: "string list state" where
  "sample_state = \<lparr>files = [[''data'', ''outputs'', ''literature_analysis.json''] \<mapsto> sample_lit_text],
      dirs = {[''data''], [''data'', ''outputs'']}, log = [], world = []\<rparr>"

definition sample_tr :: "string list transform" where
  "sample_tr w c =
     (if c = ''bad'' then Inl (OtherError ''out of memory'')
      else Inr (JObj [(''key_points'', JArr [JStr c]), (''importance_scores'', JArr [JNum 1])]),
      w @ [c])"

definition sample_papers :: "paper list" where
  "sample_papers =
     [\<lparr>title = ''PaperA'', content = ''alpha''\<rparr>,
      \<lparr>title = ''PaperB'', content = ''bad''\<rparr>,
      \<lparr>title = ''PaperC'', content = ''gamma''\<rparr>]"

definition twin_papers :: "paper list" where
  "twin_papers =
     [\<lparr>title = ''PaperA'', content = ''alpha''\<rparr>,
      \<lparr>title = ''PaperA'', content = ''beta''\<rparr>]"

definition empty_state :: "string list state" where
  "empty_state = \<lparr>files = Map.empty, dirs = {}, log = [], world = []\<rparr>"

text \<open>
  A state with the hypotheses, the experimental analysis and an older metadata file, and
  the same state without the experimental analysis.
\<close>

definition vis_state :: "string list state" where
  "vis_state =
     \<lparr>files = [[''data'', ''outputs'', ''generated_hypotheses.json''] \<mapsto> sample_hyps_text,
               [''data'', ''outputs'', ''experimental_analysis.json''] \<mapsto> sample_exp_text,
               [''data'', ''outputs'', ''visualizations'', ''visualization_metadata.json'']
                  \<mapsto> sample_old_meta_text],
      dirs = {[''data''], [''data'', ''outputs''], [''data'', ''outputs'', ''visualizations'']},
      log = [], world = []\<rparr>"



section \<open>Basic facts\<close>


lemma log_msg_simps [simp]:
  "files (log_msg m st) = files st" "dirs (log_msg m st) = dirs st"
  "world (log_msg m st) = world st" "log (log_msg m st) = log st @ [m]"
  by (simp_all add: log_msg_def)

lemma save_json_simps [simp]:
  "files (save_json env d p st) = (files st)(p \<mapsto> dumps env (JObj d))"
  "world (save_json env d p st) = world st" "log (save_json env d p st) = log st"
  by (simp_all add: save_json_def)

lemma load_json_cong:
  "files st p = files st' p \<Longrightarrow> load_json env p st = load_json env p st'"
  by (simp add: load_json_def)

lemma try_analyze_world: "snd (try_analyze tr w p) = snd (tr w (content p))"
  by (simp add: try_analyze_def split: prod.splits sum.splits)

lemma analyze_loop_world:
  "world (snd (analyze_loop tr ps (res, st))) = foldl (\<lambda>w p. snd (tr w (content p))) (world st) ps"
proof (induction ps arbitrary: res st)
  case Nil
  show ?case by simp
next
  case (Cons p ps)
  obtain r w' where t: "try_analyze tr (world st) p = (r, w')" by (cases "try_analyze tr (world st) p")
  then have w': "w' = snd (tr (world st) (content p))"
    using try_analyze_world [of tr "world st" p] by simp
  show ?case
    by (cases r) (simp_all add: analyze_paper_def t Cons.IH w')
qed

lemma analyze_loop_files: "files (snd (analyze_loop tr ps (res, st))) = files st"
proof (induction ps arbitrary: res st)
  case Nil
  show ?case by simp
next
  case (Cons p ps)
  obtain r w' where t: "try_analyze tr (world st) p = (r, w')" by (cases "try_analyze tr (world st) p")
  show ?case
    by (cases r) (simp_all add: analyze_paper_def t Cons.IH)
qed

lemma analyze_loop_stored:
  "fst (analyze_loop tr ps (res, st)) = stored res (attempts tr (world st) ps)"
proof (induction ps arbitrary: res st)
  case Nil
  show ?case by simp
next
  case (Cons p ps)
  obtain r w' where t: "try_analyze tr (world st) p = (r, w')" by (cases "try_analyze tr (world st) p")
  show ?case
    by (cases r) (simp_all add: analyze_paper_def t Cons.IH)
qed

lemma analyze_loop_log:
  "log (snd (analyze_loop tr ps (res, st))) = log st @ map attempt_log (attempts tr (world st) ps)"
proof (induction ps arbitrary: res st)
  case Nil
  show ?case by simp
next
  case (Cons p ps)
  obtain r w' where t: "try_analyze tr (world st) p = (r, w')" by (cases "try_analyze tr (world st) p")
  show ?case
    by (cases r) (simp_all add: analyze_paper_def t Cons.IH)
qed

lemma attempts_papers: "map fst (attempts tr w ps) = ps"
  by (induction ps arbitrary: w) (auto split: prod.splits)


lemma generate_hypothesis_files [simp]:
  "files (snd (generate_hypothesis post c st)) = files st"
  by (simp add: generate_hypothesis_def split: prod.splits sum.splits)

lemma generate_hypothesis_world [simp]:
  "world (snd (generate_hypothesis post c st)) = snd (post (world st) (hypothesis_prompt c))"
  by (simp add: generate_hypothesis_def split: prod.splits sum.splits)

lemma hypotheses_loop_files: "files (snd (hypotheses_loop post lit hyps st)) = files st"
proof (induction post lit hyps st rule: hypotheses_loop.induct)
  case (1 post hyps st)
  show ?case by simp
next
  case (2 post k a rest hyps st)
  show ?case
  proof (cases "context_of a")
    case (Inl e)
    then show ?thesis by simp
  next
    case (Inr c)
    obtain r st' where g: "generate_hypothesis post c st = (r, st')"
      by (cases "generate_hypothesis post c st")
    then have f: "files st' = files st"
      using generate_hypothesis_files [of post c st] by simp
    show ?thesis
      using "2.IH" [OF Inr g [symmetric]] f by (simp add: Inr g)
  qed
qed

lemma hypotheses_loop_attempts_all:
  "contexts_of lit = Inr cs \<Longrightarrow>
     (\<exists>h. fst (hypotheses_loop post lit hyps st) = Inr h) \<and>
     world (snd (hypotheses_loop post lit hyps st))
       = foldl (\<lambda>w c. snd (post w (hypothesis_prompt c))) (world st) cs"
proof (induction post lit hyps st arbitrary: cs rule: hypotheses_loop.induct)
  case (1 post hyps st)
  then show ?case by simp
next
  case (2 post k a rest hyps st)
  from "2.prems" obtain c cs' where c: "context_of a = Inr c" and cs': "contexts_of rest = Inr cs'"
    and cs: "cs = c # cs'"
    by (auto split: sum.splits)
  obtain r st' where g: "generate_hypothesis post c st = (r, st')"
    by (cases "generate_hypothesis post c st")
  then have w: "world st' = snd (post (world st) (hypothesis_prompt c))"
    using generate_hypothesis_world [of post c st] by simp
  show ?case
    using "2.IH" [OF c g [symmetric] _ cs'] w by (simp add: c g cs)
qed

lemma analyze_papers_run:
  "fst (analyze_papers env tr papers st) = stored [] (attempts tr (world st) papers)"
  "world (snd (analyze_papers env tr papers st))
     = foldl (\<lambda>w p. snd (tr w (content p))) (world st) papers"
  "filter is_error (log (snd (analyze_papers env tr papers st)))
     = filter is_error (log st) @ filter is_error (map attempt_log (attempts tr (world st) papers))"
proof -
  let ?st1 = "log_msg (LogInfo ''Starting paper analysis'') st"
  obtain res st2 where l: "analyze_loop tr papers ([], ?st1) = (res, st2)"
    by (cases "analyze_loop tr papers ([], ?st1)")
  have r: "res = stored [] (attempts tr (world st) papers)"
    using analyze_loop_stored [of tr papers "[]" ?st1] l by simp
  have w: "world st2 = foldl (\<lambda>w p. snd (tr w (content p))) (world st) papers"
    using analyze_loop_world [of tr papers "[]" ?st1] l by simp
  have g: "log st2 = log st @ [LogInfo ''Starting paper analysis''] @ map attempt_log (attempts tr (world st) papers)"
    using analyze_loop_log [of tr papers "[]" ?st1] l by simp
  show "fst (analyze_papers env tr papers st) = stored [] (attempts tr (world st) papers)"
    by (cases "papers = []") (simp_all add: analyze_papers_def l r)
  show "world (snd (analyze_papers env tr papers st))
     = foldl (\<lambda>w p. snd (tr w (content p))) (world st) papers"
    by (cases "papers = []") (simp_all add: analyze_papers_def l w)
  show "filter is_error (log (snd (analyze_papers env tr papers st)))
     = filter is_error (log st) @ filter is_error (map attempt_log (attempts tr (world st) papers))"
    by (cases "papers = []") (simp_all add: analyze_papers_def l g)
qed

lemma analyze_papers_files:
  "files (snd (analyze_papers env tr papers st))
     = (if papers = [] then files st
        else (files st)(literature_path env \<mapsto> dumps env (JObj (fst (analyze_papers env tr papers st)))))"
proof -
  let ?st1 = "log_msg (LogInfo ''Starting paper analysis'') st"
  obtain res st2 where l: "analyze_loop tr papers ([], ?st1) = (res, st2)"
    by (cases "analyze_loop tr papers ([], ?st1)")
  have f: "files st2 = files st"
    using analyze_loop_files [of tr papers "[]" ?st1] l by simp
  show ?thesis
    by (simp add: analyze_papers_def l f)
qed

lemma generate_hypotheses_run:
  assumes "load_json env (literature_path env) st = Inr lit"
  shows "generate_hypotheses env post st =
     (case hypotheses_loop post lit [] (log_msg (LogInfo ''Starting hypothesis generation'') st) of
        (Inl e, st2) \<Rightarrow> (Inl e, st2)
      | (Inr hypotheses, st2) \<Rightarrow>
          (Inr hypotheses,
           log_msg (LogInfo (''Saved generated hypotheses to '' @ path_str (hypotheses_path env)))
             (save_json env hypotheses (hypotheses_path env) st2)))"
proof -
  have "load_json env (literature_path env) (log_msg (LogInfo ''Starting hypothesis generation'') st) = Inr lit"
    using assms by (simp add: load_json_def)
  then show ?thesis
    by (simp add: generate_hypotheses_def)
qed

lemma generate_hypotheses_files:
  assumes "load_json env (literature_path env) st = Inr lit"
    and "fst (generate_hypotheses env post st) = Inr hyps"
  shows "files (snd (generate_hypotheses env post st))
           = (files st)(hypotheses_path env \<mapsto> dumps env (JObj hyps))"
proof -
  let ?st1 = "log_msg (LogInfo ''Starting hypothesis generation'') st"
  obtain r st2 where l: "hypotheses_loop post lit [] ?st1 = (r, st2)"
    by (cases "hypotheses_loop post lit [] ?st1")
  have f: "files st2 = files st"
    using hypotheses_loop_files [of post lit "[]" ?st1] l by simp
  show ?thesis
    using assms(2) by (cases r) (simp_all add: generate_hypotheses_run [OF assms(1)] l f)
qed

lemma stored_keys:
  "fst ` set (stored d as) = fst ` set d \<union> {title p | p v. (p, Inr v) \<in> set as}"
proof (induction d as rule: stored.induct)
  case (1 d)
  show ?case by simp
next
  case (2 d p v as)
  show ?case
    unfolding stored.simps "2.IH" dom_update by auto
next
  case (3 d p e as)
  show ?case
    unfolding stored.simps "3.IH" by auto
qed

lemma update_length_fresh:
  "k \<notin> fst ` set al \<Longrightarrow> length (AList.update k v al) = Suc (length al)"
  by (induction al) auto

lemma stored_length:
  "distinct (map (\<lambda>a. title (fst a)) as) \<Longrightarrow> \<forall>a \<in> set as. title (fst a) \<notin> fst ` set d \<Longrightarrow>
     length (stored d as) = length d + length (filter (\<lambda>a. \<not> is_error (attempt_log a)) as)"
proof (induction d as rule: stored.induct)
  case (1 d)
  show ?case by simp
next
  case (2 d p v as)
  have new: "title p \<notin> (\<lambda>a. title (fst a)) ` set as"
    using "2.prems"(1) by simp
  have fresh: "\<forall>a\<in>set as. title (fst a) \<notin> fst ` set (AList.update (title p) v d)"
  proof
    fix a
    assume a: "a \<in> set as"
    then have "title (fst a) \<noteq> title p"
      using new by (metis image_eqI)
    moreover have "title (fst a) \<notin> fst ` set d"
      using a "2.prems"(2) by simp
    ultimately show "title (fst a) \<notin> fst ` set (AList.update (title p) v d)"
      by (simp add: dom_update)
  qed
  have dist: "distinct (map (\<lambda>a. title (fst a)) as)"
    using "2.prems" by simp
  have "length (stored (AList.update (title p) v d) as)
      = length (AList.update (title p) v d) + length (filter (\<lambda>a. \<not> is_error (attempt_log a)) as)"
    using dist fresh by (rule "2.IH")
  moreover have "title p \<notin> fst ` set d"
    using "2.prems" by simp
  ultimately show ?case
    by (simp add: update_length_fresh)
next
  case (3 d p e as)
  then show ?case by simp
qed

lemma filter_error_complement:
  "length (filter (\<lambda>a. \<not> is_error (attempt_log a)) as)
     + length (filter is_error (map attempt_log as)) = length as"
  by (induction as) auto

lemma analyze_papers_log:
  "papers \<noteq> [] \<Longrightarrow>
   log (snd (analyze_papers env tr papers st))
     = log st @ [LogInfo ''Starting paper analysis'']
       @ map attempt_log (attempts tr (world st) papers)
       @ [LogInfo (''Saved analysis results to '' @ path_str (literature_path env))]"
proof -
  assume ne: "papers \<noteq> []"
  let ?st1 = "log_msg (LogInfo ''Starting paper analysis'') st"
  obtain res st2 where l: "analyze_loop tr papers ([], ?st1) = (res, st2)"
    by (cases "analyze_loop tr papers ([], ?st1)")
  have g: "log st2 = log st @ [LogInfo ''Starting paper analysis''] @ map attempt_log (attempts tr (world st) papers)"
    using analyze_loop_log [of tr papers "[]" ?st1] l by simp
  show ?thesis
    using ne by (simp add: analyze_papers_def l g)
qed

lemma attempts_length: "length (attempts tr w ps) = length ps"
  by (metis attempts_papers length_map)

lemma sample_load: "load_json sample_env (literature_path sample_env) sample_state = Inr sample_lit"
  by (simp add: load_json_def sample_env_def literature_path_def sample_state_def sample_loads_def)

lemma sample_contexts: "contexts_of sample_lit = Inr [''a1'' @ nl @ ''a2'', ''b1'', ''c1'']"
  by (simp add: sample_lit_def context_of_def py_join_def)

lemma update_set_subset: "set (AList.update k v al) \<subseteq> insert (k, v) (set al)"
  by (induction al) auto

lemma generate_hypothesis_result:
  "fst (generate_hypothesis post c st)
     = (case fst (post (world st) (hypothesis_prompt c)) of Inl e \<Rightarrow> JNull | Inr r \<Rightarrow> r)"
  by (simp add: generate_hypothesis_def split: prod.splits sum.splits)

lemma generate_hypothesis_truthy:
  "generate_hypothesis post c st = (r, st') \<Longrightarrow> truthy r \<Longrightarrow>
     fst (post (world st) (hypothesis_prompt c)) = Inr r"
  using generate_hypothesis_result [of post c st] by (auto split: sum.splits)

lemma hypotheses_loop_entries:
  "fst (hypotheses_loop post lit hyps st) = Inr h \<Longrightarrow> (k, v) \<in> set h \<Longrightarrow>
     (k, v) \<in> set hyps \<or>
     (\<exists>a c r w. (k, a) \<in> set lit \<and> context_of a = Inr c
        \<and> fst (post w (hypothesis_prompt c)) = Inr r \<and> truthy r
        \<and> v = JObj [(''context'', JStr c), (''generated_hypothesis'', r)])"
proof (induction post lit hyps st rule: hypotheses_loop.induct)
  case (1 post hyps st)
  then show ?case by simp
next
  case (2 post k' a rest hyps st)
  from "2.prems"(1) obtain c where c: "context_of a = Inr c"
    by (cases "context_of a") simp_all
  obtain r st' where g: "generate_hypothesis post c st = (r, st')"
    by (cases "generate_hypothesis post c st")
  show ?case
  proof (cases "truthy r")
    case True
    let ?e = "JObj [(''context'', JStr c), (''generated_hypothesis'', r)]"
    let ?st = "log_msg (LogInfo (''Generated hypothesis for paper: '' @ k')) st'"
    have run: "fst (hypotheses_loop post rest (AList.update k' ?e hyps) ?st) = Inr h"
      using "2.prems"(1) by (simp add: c g True)
    from "2.IH"(1) [OF c g [symmetric] True run "2.prems"(2)]
    consider "(k, v) \<in> set (AList.update k' ?e hyps)"
      | "\<exists>a c r w. (k, a) \<in> set rest \<and> context_of a = Inr c
           \<and> fst (post w (hypothesis_prompt c)) = Inr r \<and> truthy r
           \<and> v = JObj [(''context'', JStr c), (''generated_hypothesis'', r)]"
      by blast
    then show ?thesis
    proof cases
      case 1
      then have "(k, v) = (k', ?e) \<or> (k, v) \<in> set hyps"
        using update_set_subset [of k' ?e hyps] by auto
      then show ?thesis
      proof
        assume "(k, v) = (k', ?e)"
        then have "(k, a) \<in> set ((k', a) # rest)" "v = ?e" by simp_all
        with c generate_hypothesis_truthy [OF g True] True show ?thesis by blast
      next
        assume "(k, v) \<in> set hyps"
        then show ?thesis by simp
      qed
    next
      case 2
      then show ?thesis by auto
    qed
  next
    case False
    have run: "fst (hypotheses_loop post rest hyps st') = Inr h"
      using "2.prems"(1) by (simp add: c g False)
    from "2.IH"(2) [OF c g [symmetric] False run "2.prems"(2)]
    show ?thesis by auto
  qed
qed

lemma hypotheses_loop_keys:
  "fst (hypotheses_loop post lit hyps st) = Inr h \<Longrightarrow>
     \<forall>w c. \<exists>r. fst (post w c) = Inr r \<and> truthy r \<Longrightarrow>
     fst ` set h = fst ` set hyps \<union> fst ` set lit"
proof (induction post lit hyps st rule: hypotheses_loop.induct)
  case (1 post hyps st)
  then show ?case by simp
next
  case (2 post k a rest hyps st)
  from "2.prems"(1) obtain c where c: "context_of a = Inr c"
    by (cases "context_of a") simp_all
  obtain r st' where g: "generate_hypothesis post c st = (r, st')"
    by (cases "generate_hypothesis post c st")
  from "2.prems"(2) obtain r' where "fst (post (world st) (hypothesis_prompt c)) = Inr r'" "truthy r'"
    by blast
  then have t: "truthy r"
    using generate_hypothesis_result [of post c st] g by simp
  let ?e = "JObj [(''context'', JStr c), (''generated_hypothesis'', r)]"
  let ?st = "log_msg (LogInfo (''Generated hypothesis for paper: '' @ k)) st'"
  have run: "fst (hypotheses_loop post rest (AList.update k ?e hyps) ?st) = Inr h"
    using "2.prems"(1) by (simp add: c g t)
  from "2.IH"(1) [OF c g [symmetric] t run "2.prems"(2)]
  show ?case by (auto simp: dom_update)
qed

lemma hypotheses_loop_distinct:
  "fst (hypotheses_loop post lit hyps st) = Inr h \<Longrightarrow> distinct (map fst hyps) \<Longrightarrow>
     distinct (map fst h)"
proof (induction post lit hyps st rule: hypotheses_loop.induct)
  case (1 post hyps st)
  then show ?case by simp
next
  case (2 post k a rest hyps st)
  from "2.prems"(1) obtain c where c: "context_of a = Inr c"
    by (cases "context_of a") simp_all
  obtain r st' where g: "generate_hypothesis post c st = (r, st')"
    by (cases "generate_hypothesis post c st")
  show ?case
  proof (cases "truthy r")
    case True
    show ?thesis
      using "2.IH"(1) [OF c g [symmetric] True] "2.prems"
      by (simp add: c g True distinct_update)
  next
    case False
    show ?thesis
      using "2.IH"(2) [OF c g [symmetric] False] "2.prems"
      by (simp add: c g False)
  qed
qed

lemma hypotheses_loop_all_fail:
  "fst (hypotheses_loop post lit hyps st) = Inr h \<Longrightarrow> \<forall>w c. fails_or_empty (post w c) \<Longrightarrow>
     h = hyps"
proof (induction post lit hyps st rule: hypotheses_loop.induct)
  case (1 post hyps st)
  then show ?case by simp
next
  case (2 post k a rest hyps st)
  from "2.prems"(1) obtain c where c: "context_of a = Inr c"
    by (cases "context_of a") simp_all
  obtain r st' where g: "generate_hypothesis post c st = (r, st')"
    by (cases "generate_hypothesis post c st")
  have "fails_or_empty (post (world st) (hypothesis_prompt c))"
    using "2.prems"(2) by blast
  then have f: "\<not> truthy r"
    using generate_hypothesis_result [of post c st] g
    by (auto simp: fails_or_empty_def split: sum.splits)
  show ?case
    using "2.IH"(2) [OF c g [symmetric] f] "2.prems"
    by (simp add: c g f)
qed

lemma insights_entry_falsy: "\<not> truthy r \<Longrightarrow> \<exists>e. insights_entry r = Inl e"
  by (cases r) (simp_all add: insights_entry_def)

lemma stored_attempts_rel:
  assumes "\<And>w w' p. R w w' \<Longrightarrow>
             same_outcome (fst (try_analyze tr w p)) (fst (try_analyze tr' w' p))
             \<and> R (snd (try_analyze tr w p)) (snd (try_analyze tr' w' p))"
    and "R w w'"
  shows "stored d (attempts tr w ps) = stored d (attempts tr' w' ps)"
  using assms(2)
proof (induction ps arbitrary: d w w')
  case Nil
  show ?case by simp
next
  case (Cons p ps)
  obtain r1 w1 where t1: "try_analyze tr w p = (r1, w1)" by (cases "try_analyze tr w p")
  obtain r2 w2 where t2: "try_analyze tr' w' p = (r2, w2)" by (cases "try_analyze tr' w' p")
  from assms(1) [OF Cons.prems, of p] have s: "same_outcome r1 r2" and R: "R w1 w2"
    by (simp_all add: t1 t2)
  show ?case
  proof (cases r1)
    case (Inl e)
    with s obtain e' where "r2 = Inl e'" by auto
    with Inl show ?thesis
      by (simp add: t1 t2 Cons.IH [OF R])
  next
    case (Inr v)
    with s have "r2 = Inr v" by simp
    with Inr show ?thesis
      by (simp add: t1 t2 Cons.IH [OF R])
  qed
qed

lemma try_analyze_raise_if_falsy:
  "same_outcome (fst (try_analyze (raise_if_falsy e0 tr) w p)) (fst (try_analyze tr w p))
   \<and> snd (try_analyze (raise_if_falsy e0 tr) w p) = snd (try_analyze tr w p)"
proof -
  obtain r w' where t: "tr w (content p) = (r, w')" by (cases "tr w (content p)")
  show ?thesis
  proof (cases r)
    case (Inl e)
    then show ?thesis
      by (simp add: try_analyze_def raise_if_falsy_def t)
  next
    case (Inr v)
    show ?thesis
    proof (cases "truthy v")
      case True
      then show ?thesis
        by (cases "insights_entry v") (simp_all add: try_analyze_def raise_if_falsy_def t Inr)
    next
      case False
      then obtain e where "insights_entry v = Inl e"
        using insights_entry_falsy by blast
      with False show ?thesis
        by (simp add: try_analyze_def raise_if_falsy_def t Inr)
    qed
  qed
qed

lemma raise_if_falsy_world: "snd (raise_if_falsy e0 tr w x) = snd (tr w x)"
  by (simp add: raise_if_falsy_def split: prod.splits sum.splits)

lemma raise_if_falsy_seen: "api_seen (fst (raise_if_falsy e0 tr w x)) = api_seen (fst (tr w x))"
  by (simp add: raise_if_falsy_def split: prod.splits sum.splits)

lemma try_analyze_deterministic:
  "deterministic tr \<Longrightarrow> same_outcome (fst (try_analyze tr w p)) (fst (try_analyze tr w' p))"
proof -
  assume "deterministic tr"
  then have e: "fst (tr w (content p)) = fst (tr w' (content p))"
    by (simp add: deterministic_def)
  obtain r1 w1 where t1: "tr w (content p) = (r1, w1)" by (cases "tr w (content p)")
  obtain r2 w2 where t2: "tr w' (content p) = (r2, w2)" by (cases "tr w' (content p)")
  from e have "r2 = r1" by (simp add: t1 t2)
  then show ?thesis
    by (cases r1; cases "insights_entry (projr r1)") (simp_all add: try_analyze_def t1 t2)
qed

lemma hypotheses_loop_rel:
  assumes "\<And>w w' x. R w w' \<Longrightarrow>
             api_seen (fst (post w x)) = api_seen (fst (post' w' x))
             \<and> R (snd (post w x)) (snd (post' w' x))"
    and "R (world st) (world st')"
  shows "fst (hypotheses_loop post lit hyps st) = fst (hypotheses_loop post' lit hyps st')
         \<and> R (world (snd (hypotheses_loop post lit hyps st)))
              (world (snd (hypotheses_loop post' lit hyps st')))"
  using assms(2)
proof (induction lit arbitrary: hyps st st')
  case Nil
  then show ?case by simp
next
  case (Cons ka rest)
  obtain k a where ka: "ka = (k, a)" by (cases ka)
  show ?case
  proof (cases "context_of a")
    case (Inl e)
    then show ?thesis using Cons.prems by (simp add: ka)
  next
    case (Inr c)
    obtain r1 s1 where g1: "generate_hypothesis post c st = (r1, s1)"
      by (cases "generate_hypothesis post c st")
    obtain r2 s2 where g2: "generate_hypothesis post' c st' = (r2, s2)"
      by (cases "generate_hypothesis post' c st'")
    from assms(1) [OF Cons.prems, of "hypothesis_prompt c"]
    have seen: "api_seen (fst (post (world st) (hypothesis_prompt c)))
                  = api_seen (fst (post' (world st') (hypothesis_prompt c)))"
      and R: "R (snd (post (world st) (hypothesis_prompt c)))
                (snd (post' (world st') (hypothesis_prompt c)))"
      by simp_all
    have r1: "r1 = (case fst (post (world st) (hypothesis_prompt c)) of Inl e \<Rightarrow> JNull | Inr r \<Rightarrow> r)"
      using generate_hypothesis_result [of post c st] g1 by simp
    have r2: "r2 = (case fst (post' (world st') (hypothesis_prompt c)) of Inl e \<Rightarrow> JNull | Inr r \<Rightarrow> r)"
      using generate_hypothesis_result [of post' c st'] g2 by simp
    have tt: "truthy r1 = truthy r2" and eq: "truthy r1 \<Longrightarrow> r1 = r2"
      using seen unfolding r1 r2
      by (cases "fst (post (world st) (hypothesis_prompt c))";
          cases "fst (post' (world st') (hypothesis_prompt c))";
          simp split: if_splits)+
    have w1: "world s1 = snd (post (world st) (hypothesis_prompt c))"
      using generate_hypothesis_world [of post c st] g1 by simp
    have w2: "world s2 = snd (post' (world st') (hypothesis_prompt c))"
      using generate_hypothesis_world [of post' c st'] g2 by simp
    have Rs: "R (world s1) (world s2)"
      using R by (simp add: w1 w2)
    show ?thesis
    proof (cases "truthy r1")
      case True
      with eq tt have e: "r2 = r1" and t2: "truthy r2" by simp_all
      let ?m = "LogInfo (''Generated hypothesis for paper: '' @ k)"
      have "R (world (log_msg ?m s1)) (world (log_msg ?m s2))"
        using Rs by simp
      from Cons.IH [OF this] show ?thesis
        by (simp add: ka Inr g1 g2 True e)
    next
      case False
      with tt have f2: "\<not> truthy r2" by simp
      from Cons.IH [OF Rs] show ?thesis
        by (simp add: ka Inr g1 g2 False f2)
    qed
  qed
qed

lemma generate_visualization_simps [simp]:
  "files (snd (generate_visualization sd prompt p st)) = files st"
  "dirs (snd (generate_visualization sd prompt p st)) = dirs st"
  "world (snd (generate_visualization sd prompt p st)) = snd (sd_render sd (world st) prompt p)"
  by (simp_all add: generate_visualization_def split: prod.splits sum.splits)

lemma generate_visualization_result:
  "fst (generate_visualization sd prompt p st)
     = (case fst (sd_render sd (world st) prompt p) of Inl e \<Rightarrow> None | Inr u \<Rightarrow> Some p)"
  by (simp add: generate_visualization_def split: prod.splits sum.splits)

lemma hypothesis_vis_loop_step:
  "subscript d ''generated_hypothesis'' = Inr h \<Longrightarrow>
   generate_visualization sd (''Scientific visualization of hypothesis: '' @ py_str env h)
     (path_div (vis_dir env) (''hypothesis_'' @ t @ ''.png'')) st = (x, st') \<Longrightarrow>
   hypothesis_vis_loop env sd ((t, d) # rest) res st =
     (case x of
        Some p \<Rightarrow>
          hypothesis_vis_loop env sd rest
            (AList.update (''hypothesis_'' @ t)
               (JStr (path_str (path_div (vis_dir env) (''hypothesis_'' @ t @ ''.png'')))) res) st'
      | None \<Rightarrow> hypothesis_vis_loop env sd rest res st')"
  by (simp add: Let_def split: option.splits)

lemma results_vis_loop_step:
  "subscript d ''feature_importance'' = Inr fi \<Longrightarrow> py_len fi = Inr n \<Longrightarrow>
   generate_visualization sd
     (''Scientific data visualization showing relationship between '' @ show_nat n @ '' features'')
     (path_div (vis_dir env) (''results_'' @ t @ ''.png'')) st = (x, st') \<Longrightarrow>
   results_vis_loop env sd ((t, d) # rest) res st =
     (case x of
        Some p \<Rightarrow>
          results_vis_loop env sd rest
            (AList.update (''results_'' @ t)
               (JStr (path_str (path_div (vis_dir env) (''results_'' @ t @ ''.png'')))) res) st'
      | None \<Rightarrow> results_vis_loop env sd rest res st')"
  by (simp add: Let_def split: option.splits del: show_nat.simps)

lemma hypothesis_vis_loop_files:
  "files (snd (hypothesis_vis_loop env sd items res st)) = files st
   \<and> dirs (snd (hypothesis_vis_loop env sd items res st)) = dirs st"
proof (induction items arbitrary: res st)
  case Nil
  show ?case by simp
next
  case (Cons td rest)
  obtain t d where td: "td = (t, d)" by (cases td)
  show ?case
  proof (cases "subscript d ''generated_hypothesis''")
    case (Inl e)
    then show ?thesis by (simp add: td)
  next
    case (Inr h)
    let ?pr = "''Scientific visualization of hypothesis: '' @ py_str env h"
    let ?out = "path_div (vis_dir env) (''hypothesis_'' @ t @ ''.png'')"
    obtain r st' where g: "generate_visualization sd ?pr ?out st = (r, st')"
      by (cases "generate_visualization sd ?pr ?out st")
    have f: "files st' = files st" "dirs st' = dirs st"
      using generate_visualization_simps(1,2) [of sd ?pr ?out st] unfolding g by simp_all
    show ?thesis
      unfolding td hypothesis_vis_loop_step [OF Inr g]
      by (cases r) (simp_all add: f Cons.IH)
  qed
qed

lemma results_vis_loop_files:
  "files (snd (results_vis_loop env sd items res st)) = files st
   \<and> dirs (snd (results_vis_loop env sd items res st)) = dirs st"
proof (induction items arbitrary: res st)
  case Nil
  show ?case by simp
next
  case (Cons td rest)
  obtain t d where td: "td = (t, d)" by (cases td)
  show ?case
  proof (cases "subscript d ''feature_importance''")
    case (Inl e)
    then show ?thesis by (simp add: td)
  next
    case (Inr fi)
    show ?thesis
    proof (cases "py_len fi")
      case (Inl e)
      then show ?thesis by (simp add: td Inr)
    next
      case n: (Inr n)
      let ?pr = "''Scientific data visualization showing relationship between ''
                               @ show_nat n @ '' features''"
      let ?out = "path_div (vis_dir env) (''results_'' @ t @ ''.png'')"
      obtain r st' where g: "generate_visualization sd ?pr ?out st = (r, st')"
        by (cases "generate_visualization sd ?pr ?out st")
      have f: "files st' = files st" "dirs st' = dirs st"
        using generate_visualization_simps(1,2) [of sd ?pr ?out st] unfolding g by simp_all
      show ?thesis
        unfolding td results_vis_loop_step [OF Inr n g]
        by (cases r) (simp_all add: f Cons.IH)
    qed
  qed
qed

lemma write_chunks_files:
  "files st p = Some b \<Longrightarrow>
     files (write_chunks p cs st) = (files st)(p \<mapsto> b @ concat cs)
     \<and> dirs (write_chunks p cs st) = dirs st \<and> world (write_chunks p cs st) = world st
     \<and> log (write_chunks p cs st) = log st"
proof (induction cs arbitrary: st b)
  case Nil
  then show ?case by (auto simp: write_chunks_def)
next
  case (Cons c cs)
  have "files (fwrite p c st) p = Some (b @ c)"
    using Cons.prems by (simp add: fwrite_def)
  from Cons.IH [OF this] show ?case
    using Cons.prems by (auto simp: write_chunks_def fwrite_def fun_eq_iff)
qed

lemma json_dump_file_simps [simp]:
  "files (json_dump_file env d p st) = (files st)(p \<mapsto> concat (iterencode env (JObj d)))"
  "dirs (json_dump_file env d p st) = dirs st"
  "world (json_dump_file env d p st) = world st"
  "log (json_dump_file env d p st) = log st"
  using write_chunks_files [of "open_w p st" p "[]" "iterencode env (JObj d)"]
  by (simp_all add: json_dump_file_def open_w_def)

lemma hypothesis_vis_loop_keys:
  "fst (hypothesis_vis_loop env sd items res st) = Inr r \<Longrightarrow>
     \<forall>w prompt p. fst (sd_render sd w prompt p) = Inr () \<Longrightarrow>
     fst ` set r = fst ` set res \<union> (\<lambda>k. ''hypothesis_'' @ k) ` fst ` set items
     \<and> (distinct (map fst res) \<longrightarrow> distinct (map fst r))"
proof (induction items arbitrary: res st)
  case Nil
  then show ?case by simp
next
  case (Cons td rest)
  obtain t d where td: "td = (t, d)" by (cases td)
  from Cons.prems(1) obtain h where h: "subscript d ''generated_hypothesis'' = Inr h"
    by (cases "subscript d ''generated_hypothesis''") (simp_all add: td)
  let ?pr = "''Scientific visualization of hypothesis: '' @ py_str env h"
  let ?out = "path_div (vis_dir env) (''hypothesis_'' @ t @ ''.png'')"
  obtain x st' where g: "generate_visualization sd ?pr ?out st = (x, st')"
    by (cases "generate_visualization sd ?pr ?out st")
  have x: "x = Some ?out"
    using generate_visualization_result [of sd ?pr ?out st] Cons.prems(2) unfolding g by simp
  have run: "fst (hypothesis_vis_loop env sd rest
               (AList.update (''hypothesis_'' @ t) (JStr (path_str ?out)) res) st') = Inr r"
    using Cons.prems(1) unfolding td hypothesis_vis_loop_step [OF h g] by (simp add: x)
  from Cons.IH [OF run Cons.prems(2)] show ?case
    by (auto simp: td dom_update distinct_update)
qed

lemma results_vis_loop_keys:
  "fst (results_vis_loop env sd items res st) = Inr r \<Longrightarrow>
     \<forall>w prompt p. fst (sd_render sd w prompt p) = Inr () \<Longrightarrow>
     fst ` set r = fst ` set res \<union> (\<lambda>k. ''results_'' @ k) ` fst ` set items
     \<and> (distinct (map fst res) \<longrightarrow> distinct (map fst r))"
proof (induction items arbitrary: res st)
  case Nil
  then show ?case by simp
next
  case (Cons td rest)
  obtain t d where td: "td = (t, d)" by (cases td)
  from Cons.prems(1) obtain fi where fi: "subscript d ''feature_importance'' = Inr fi"
    by (cases "subscript d ''feature_importance''") (simp_all add: td)
  from Cons.prems(1) obtain n where n: "py_len fi = Inr n"
    by (cases "py_len fi") (simp_all add: td fi)
  let ?pr = "''Scientific data visualization showing relationship between ''
                               @ show_nat n @ '' features''"
  let ?out = "path_div (vis_dir env) (''results_'' @ t @ ''.png'')"
  obtain x st' where g: "generate_visualization sd ?pr ?out st = (x, st')"
    by (cases "generate_visualization sd ?pr ?out st")
  have x: "x = Some ?out"
    using generate_visualization_result [of sd ?pr ?out st] Cons.prems(2) unfolding g by simp
  have run: "fst (results_vis_loop env sd rest
               (AList.update (''results_'' @ t) (JStr (path_str ?out)) res) st') = Inr r"
    using Cons.prems(1) unfolding td results_vis_loop_step [OF fi n g] by (simp add: x)
  from Cons.IH [OF run Cons.prems(2)] show ?case
    by (auto simp: td dom_update distinct_update)
qed

lemma vis_started_simps [simp]:
  "files (vis_started env st) = files st" "world (vis_started env st) = world st"
  "dirs (vis_started env st) = insert (vis_dir env) (dirs st)"
  by (simp_all add: vis_started_def)

lemma load_results_cong:
  "files st (hypotheses_path env) = files st' (hypotheses_path env) \<Longrightarrow>
   files st (experimental_path env) = files st' (experimental_path env) \<Longrightarrow>
   load_results env st = load_results env st'"
proof -
  assume a: "files st (hypotheses_path env) = files st' (hypotheses_path env)"
    and b: "files st (experimental_path env) = files st' (experimental_path env)"
  show ?thesis
    unfolding load_results_def load_json_cong [OF a] load_json_cong [OF b] ..
qed


lemma mkdir_error_log_msg [simp]: "mkdir_error p (log_msg m st) = mkdir_error p st"
  by (simp add: mkdir_error_def)

lemma mkdir_vis_dir:
  "mkdir_exist_ok (vis_dir env) (log_msg (LogInfo ''Starting visualization generation'') st)
     = (case mkdir_error (vis_dir env) st of
          None \<Rightarrow> Inr (vis_started env st)
        | Some e \<Rightarrow> Inl e)"
  by (simp add: mkdir_exist_ok_def vis_started_def split: option.splits)

lemma generate_visualizations_no_dir:
  "mkdir_error (vis_dir env) st \<noteq> None \<Longrightarrow>
     generate_visualizations env sd st
       = (Inl (the (mkdir_error (vis_dir env) st)),
          log_msg (LogInfo ''Starting visualization generation'') st)"
  by (auto simp: generate_visualizations_def mkdir_vis_dir)

lemma generate_visualizations_load_fail:
  "mkdir_error (vis_dir env) st = None \<Longrightarrow> load_results env st = Inl e \<Longrightarrow>
     generate_visualizations env sd st
       = (Inr [], log_msg (LogError ''Error loading results'' e) (vis_started env st))"
proof -
  assume ok: "mkdir_error (vis_dir env) st = None" and l: "load_results env st = Inl e"
  have "load_results env (vis_started env st) = Inl e"
    using l load_results_cong [of "vis_started env st" env st] by simp
  then show ?thesis
    by (simp add: generate_visualizations_def mkdir_vis_dir ok)
qed

lemma generate_visualizations_loaded:
  "mkdir_error (vis_dir env) st = None \<Longrightarrow> load_results env st = Inr (hyps, analysis) \<Longrightarrow>
     generate_visualizations env sd st =
       (case sd_load sd (world st) of
          (Inl e, w') \<Rightarrow> (Inl e, (vis_started env st)\<lparr>world := w'\<rparr>)
        | (Inr u, w') \<Rightarrow>
            (case hypothesis_vis_loop env sd hyps [] ((vis_started env st)\<lparr>world := w'\<rparr>) of
               (Inl e, st3) \<Rightarrow> (Inl e, st3)
             | (Inr results1, st3) \<Rightarrow>
                 (case results_vis_loop env sd analysis results1 st3 of
                    (Inl e, st4) \<Rightarrow> (Inl e, st4)
                  | (Inr visualization_results, st4) \<Rightarrow>
                      (Inr visualization_results,
                       log_msg (LogInfo (''Saved visualization metadata to ''
                                          @ path_str (metadata_path env)))
                         (json_dump_file env visualization_results (metadata_path env) st4)))))"
proof -
  assume ok: "mkdir_error (vis_dir env) st = None" and l: "load_results env st = Inr (hyps, analysis)"
  have "load_results env (vis_started env st) = Inr (hyps, analysis)"
    using l load_results_cong [of "vis_started env st" env st] by simp
  then show ?thesis
    by (simp add: generate_visualizations_def mkdir_vis_dir ok)
qed

lemma generate_visualizations_files:
  "files (snd (generate_visualizations env sd st))
     = (case load_results env st of
          Inl e \<Rightarrow> files st
        | Inr inputs \<Rightarrow>
            (case fst (generate_visualizations env sd st) of
               Inl e \<Rightarrow> files st
             | Inr res \<Rightarrow> (files st)(metadata_path env \<mapsto> concat (iterencode env (JObj res)))))"
proof (cases "mkdir_error (vis_dir env) st = None")
  case False
  then show ?thesis
    by (simp add: generate_visualizations_no_dir split: sum.splits)
next
  case True
  show ?thesis
  proof (cases "load_results env st")
    case (Inl e)
    then show ?thesis
      by (simp add: generate_visualizations_load_fail [OF True Inl])
  next
    case (Inr inputs)
    obtain hyps analysis where i: "inputs = (hyps, analysis)" by (cases inputs)
    obtain r0 w' where ld: "sd_load sd (world st) = (r0, w')" by (cases "sd_load sd (world st)")
    let ?s = "(vis_started env st)\<lparr>world := w'\<rparr>"
    obtain r1 st3 where l1: "hypothesis_vis_loop env sd hyps [] ?s = (r1, st3)"
      by (cases "hypothesis_vis_loop env sd hyps [] ?s")
    have f3: "files st3 = files st"
      using hypothesis_vis_loop_files [of env sd hyps "[]" ?s] l1 by simp
    show ?thesis
    proof (cases r0)
      case (Inl e)
      then show ?thesis
        by (simp add: generate_visualizations_loaded [OF True Inr [unfolded i]] ld Inr)
    next
      case u: (Inr u)
      show ?thesis
      proof (cases r1)
        case (Inl e)
        then show ?thesis
          by (simp add: generate_visualizations_loaded [OF True Inr [unfolded i]] ld u l1 f3 Inr)
      next
        case res1: (Inr res1)
        obtain r2 st4 where l2: "results_vis_loop env sd analysis res1 st3 = (r2, st4)"
          by (cases "results_vis_loop env sd analysis res1 st3")
        have f4: "files st4 = files st"
          using results_vis_loop_files [of env sd analysis res1 st3] l2 f3 by simp
        show ?thesis
          by (cases r2)
             (simp_all add: generate_visualizations_loaded [OF True Inr [unfolded i]] ld u l1 res1
                l2 f4 Inr)
      qed
    qed
  qed
qed

lemma generate_visualizations_dirs:
  "dirs (snd (generate_visualizations env sd st))
     = (if mkdir_error (vis_dir env) st = None then insert (vis_dir env) (dirs st) else dirs st)"
proof (cases "mkdir_error (vis_dir env) st = None")
  case False
  show ?thesis
    unfolding generate_visualizations_no_dir [OF False] if_not_P [OF False] by simp
next
  case True
  show ?thesis
  proof (cases "load_results env st")
    case (Inl e)
    then show ?thesis
      by (simp add: generate_visualizations_load_fail [OF True Inl] True)
  next
    case (Inr inputs)
    obtain hyps analysis where i: "inputs = (hyps, analysis)" by (cases inputs)
    obtain r0 w' where ld: "sd_load sd (world st) = (r0, w')" by (cases "sd_load sd (world st)")
    let ?s = "(vis_started env st)\<lparr>world := w'\<rparr>"
    obtain r1 st3 where l1: "hypothesis_vis_loop env sd hyps [] ?s = (r1, st3)"
      by (cases "hypothesis_vis_loop env sd hyps [] ?s")
    have f3: "dirs st3 = insert (vis_dir env) (dirs st)"
      using hypothesis_vis_loop_files [of env sd hyps "[]" ?s] l1 by simp
    show ?thesis
    proof (cases r0)
      case (Inl e)
      then show ?thesis
        by (simp add: generate_visualizations_loaded [OF True Inr [unfolded i]] ld True)
    next
      case u: (Inr u)
      show ?thesis
      proof (cases r1)
        case (Inl e)
        then show ?thesis
          by (simp add: generate_visualizations_loaded [OF True Inr [unfolded i]] ld u l1 f3 True)
      next
        case res1: (Inr res1)
        obtain r2 st4 where l2: "results_vis_loop env sd analysis res1 st3 = (r2, st4)"
          by (cases "results_vis_loop env sd analysis res1 st3")
        have f4: "dirs st4 = insert (vis_dir env) (dirs st)"
          using results_vis_loop_files [of env sd analysis res1 st3] l2 f3 by simp
        show ?thesis
          by (cases r2)
             (simp_all add: generate_visualizations_loaded [OF True Inr [unfolded i]] ld u l1 res1
                l2 f4 True)
      qed
    qed
  qed
qed

lemma generate_visualizations_keys:
  assumes l: "load_results env st = Inr (hyps, analysis)"
    and ok: "\<forall>w prompt p. fst (sd_render sd w prompt p) = Inr ()"
    and r: "fst (generate_visualizations env sd st) = Inr res"
  shows "fst ` set res = (\<lambda>k. ''hypothesis_'' @ k) ` fst ` set hyps
                          \<union> (\<lambda>k. ''results_'' @ k) ` fst ` set analysis
         \<and> distinct (map fst res)"
proof -
  have d: "mkdir_error (vis_dir env) st = None"
    using r by (cases "mkdir_error (vis_dir env) st = None") (simp_all add: generate_visualizations_no_dir)
  obtain r0 w' where ld: "sd_load sd (world st) = (r0, w')" by (cases "sd_load sd (world st)")
  let ?s = "(vis_started env st)\<lparr>world := w'\<rparr>"
  obtain r1 st3 where l1: "hypothesis_vis_loop env sd hyps [] ?s = (r1, st3)"
    by (cases "hypothesis_vis_loop env sd hyps [] ?s")
  from r obtain u where u: "r0 = Inr u"
    by (cases r0) (simp_all add: generate_visualizations_loaded [OF d l] ld)
  from r obtain res1 where res1: "r1 = Inr res1"
    by (cases r1) (simp_all add: generate_visualizations_loaded [OF d l] ld u l1)
  obtain r2 st4 where l2: "results_vis_loop env sd analysis res1 st3 = (r2, st4)"
    by (cases "results_vis_loop env sd analysis res1 st3")
  from r have r2: "r2 = Inr res"
    by (cases r2) (simp_all add: generate_visualizations_loaded [OF d l] ld u l1 res1 l2)
  have k1: "fst ` set res1 = (\<lambda>k. ''hypothesis_'' @ k) ` fst ` set hyps" "distinct (map fst res1)"
    using hypothesis_vis_loop_keys [of env sd hyps "[]" ?s res1] ok l1 res1 by simp_all
  have k2: "fst ` set res = fst ` set res1 \<union> (\<lambda>k. ''results_'' @ k) ` fst ` set analysis"
    "distinct (map fst res)"
    using results_vis_loop_keys [of env sd analysis res1 st3 res] ok l2 r2 k1(2) by simp_all
  show ?thesis
    using k1 k2 by simp
qed

lemma analyze_papers_none:
  "analyze_papers env tr [] st
     = ([], log_msg (LogWarning ''No papers found in research directory'')
              (log_msg (LogInfo ''Starting paper analysis'') st))"
  by (simp add: analyze_papers_def)










lemma broken_contexts: "contexts_of broken_lit = Inl (KeyError ''key_insights'')"
  by code_simp




lemma generate_hypotheses_loop_result:
  assumes "load_json env (literature_path env) st = Inr lit"
  shows "fst (generate_hypotheses env post st)
           = fst (hypotheses_loop post lit [] (log_msg (LogInfo ''Starting hypothesis generation'') st))"
  by (simp add: generate_hypotheses_run [OF assms] split: prod.splits sum.splits)

lemma sample_hypothesis_loop:
  "fst (hypothesis_vis_loop sample_env sample_sd sample_hyps [] s)
     = Inr [(''hypothesis_PaperA'', JStr ''data/outputs/visualizations/hypothesis_PaperA.png'')]"
  by (simp add: sample_hyps_def generate_visualization_def sample_sd_def Let_def path_str_def
        path_div_def path_parts_def vis_dir_def sample_env_def)

lemma sample_results_loop:
  "fst (results_vis_loop sample_env sample_sd sample_exp
          [(''hypothesis_PaperA'', JStr ''data/outputs/visualizations/hypothesis_PaperA.png'')] s)
     = Inr sample_meta"
  by (simp add: sample_exp_def sample_meta_def generate_visualization_def sample_sd_def Let_def
        path_str_def path_div_def path_parts_def vis_dir_def sample_env_def)

lemma vis_state_load: "load_results sample_env vis_state = Inr (sample_hyps, sample_exp)"
  by code_simp

lemma vis_state_dir: "mkdir_error (vis_dir sample_env) vis_state = None"
  by code_simp

lemma vis_state_run: "fst (generate_visualizations sample_env sample_sd vis_state) = Inr sample_meta"
proof -
  let ?s = "(vis_started sample_env vis_state)\<lparr>world := world vis_state\<rparr>"
  obtain st3 where l1: "hypothesis_vis_loop sample_env sample_sd sample_hyps [] ?s
      = (Inr [(''hypothesis_PaperA'', JStr ''data/outputs/visualizations/hypothesis_PaperA.png'')], st3)"
    using sample_hypothesis_loop [of ?s]
    by (cases "hypothesis_vis_loop sample_env sample_sd sample_hyps [] ?s") simp
  obtain st4 where l2: "results_vis_loop sample_env sample_sd sample_exp
          [(''hypothesis_PaperA'', JStr ''data/outputs/visualizations/hypothesis_PaperA.png'')] st3
      = (Inr sample_meta, st4)"
    using sample_results_loop [of st3]
    by (cases "results_vis_loop sample_env sample_sd sample_exp
          [(''hypothesis_PaperA'', JStr ''data/outputs/visualizations/hypothesis_PaperA.png'')] st3") simp
  have ld: "sd_load sample_sd (world vis_state) = (Inr (), world vis_state)"
    by (simp add: sample_sd_def)
  show ?thesis
    unfolding generate_visualizations_loaded [OF vis_state_dir vis_state_load] ld
    by (simp only: l1 l2 prod.case sum.case fst_conv)
qed

lemma str_items_strings: "str_items (map JStr ss) = Inr ss"
  by (induction ss) simp_all

lemma py_join_strings: "py_join sep (JArr (map JStr ss)) = Inr (join sep ss)"
  by (simp add: py_join_def str_items_strings)

lemma sample_hypotheses_run:
  "fst (generate_hypotheses sample_env sample_post sample_state)
     = Inr [(''PaperA'', JObj [(''context'', JStr (''a1'' @ nl @ ''a2'')),
                               (''generated_hypothesis'', JObj [(''text'', JStr ''H'')])]),
            (''PaperC'', JObj [(''context'', JStr ''c1''),
                               (''generated_hypothesis'', JObj [(''text'', JStr ''H'')])])]"
  by code_simp

lemma try_analyze_success:
  "try_analyze tr w p = (Inr v, w') \<Longrightarrow> \<not> fails_or_empty (tr w (content p))"
proof -
  assume t: "try_analyze tr w p = (Inr v, w')"
  obtain r w1 where tr: "tr w (content p) = (r, w1)" by (cases "tr w (content p)")
  from t tr obtain ins where r: "r = Inr ins" and e: "insights_entry ins = Inr v"
    by (cases r) (simp_all add: try_analyze_def)
  have "truthy ins"
    using e insights_entry_falsy [of ins] by auto
  then show ?thesis
    by (simp add: fails_or_empty_def tr r)
qed

lemma attempts_success:
  "(p, Inr v) \<in> set (attempts tr w ps) \<Longrightarrow>
     p \<in> set ps \<and> (\<exists>w0. \<not> fails_or_empty (tr w0 (content p)))"
proof (induction ps arbitrary: w)
  case Nil
  then show ?case by simp
next
  case (Cons q ps)
  obtain r w' where t: "try_analyze tr w q = (r, w')" by (cases "try_analyze tr w q")
  from Cons.prems have "(p, Inr v) = (q, r) \<or> (p, Inr v) \<in> set (attempts tr w' ps)"
    by (simp add: t)
  then show ?case
  proof
    assume "(p, Inr v) = (q, r)"
    then have "try_analyze tr w p = (Inr v, w')" using t by simp
    from try_analyze_success [OF this] show ?thesis
      using \<open>(p, Inr v) = (q, r)\<close> by auto
  next
    assume "(p, Inr v) \<in> set (attempts tr w' ps)"
    from Cons.IH [OF this] show ?thesis by auto
  qed
qed

lemma analyze_papers_omits:
  assumes "\<forall>p w. p \<in> set papers \<and> title p = k \<longrightarrow> fails_or_empty (tr w (content p))"
  shows "k \<notin> fst ` set (fst (analyze_papers env tr papers st))"
proof
  assume "k \<in> fst ` set (fst (analyze_papers env tr papers st))"
  then obtain p v where a: "(p, Inr v) \<in> set (attempts tr (world st) papers)" and t: "title p = k"
    by (auto simp: analyze_papers_run(1) stored_keys)
  from attempts_success [OF a] obtain w0 where "p \<in> set papers"
    "\<not> fails_or_empty (tr w0 (content p))"
    by auto
  with assms t show False by blast
qed

lemma generate_hypotheses_omits:
  assumes l: "load_json env (literature_path env) st = Inr lit"
    and r: "fst (generate_hypotheses env post st) = Inr hyps"
    and f: "\<forall>a c w. (k, a) \<in> set lit \<and> context_of a = Inr c
              \<longrightarrow> fails_or_empty (post w (hypothesis_prompt c))"
  shows "k \<notin> fst ` set hyps"
proof
  assume "k \<in> fst ` set hyps"
  then obtain v where kv: "(k, v) \<in> set hyps" by auto
  let ?st1 = "log_msg (LogInfo ''Starting hypothesis generation'') st"
  have run: "fst (hypotheses_loop post lit [] ?st1) = Inr hyps"
    using r by (simp add: generate_hypotheses_loop_result [OF l])
  from hypotheses_loop_entries [OF run kv]
  obtain a c x w where a: "(k, a) \<in> set lit" and c: "context_of a = Inr c"
    and p: "fst (post w (hypothesis_prompt c)) = Inr x" and t: "truthy x"
    by auto
  from f a c have "fails_or_empty (post w (hypothesis_prompt c))"
    by blast
  with p t show False
    by (simp add: fails_or_empty_def)
qed

lemma analyze_papers_raise_if_falsy:
  "fst (analyze_papers env (raise_if_falsy e0 tr) papers st) = fst (analyze_papers env tr papers st)"
  unfolding analyze_papers_run(1)
  by (rule stored_attempts_rel [where R = "(=)"]) (simp_all add: try_analyze_raise_if_falsy)

lemma generate_hypotheses_raise_if_falsy:
  "fst (generate_hypotheses env (raise_if_falsy e0 post) st) = fst (generate_hypotheses env post st)"
proof (cases "load_json env (literature_path env) st")
  case (Inl e)
  then have "load_json env (literature_path env)
               (log_msg (LogInfo ''Starting hypothesis generation'') st) = Inl e"
    by (simp add: load_json_def)
  then show ?thesis
    by (simp add: generate_hypotheses_def)
next
  case (Inr lit)
  let ?st1 = "log_msg (LogInfo ''Starting hypothesis generation'') st"
  have "fst (hypotheses_loop (raise_if_falsy e0 post) lit [] ?st1)
          = fst (hypotheses_loop post lit [] ?st1)
        \<and> world (snd (hypotheses_loop (raise_if_falsy e0 post) lit [] ?st1))
          = world (snd (hypotheses_loop post lit [] ?st1))"
    by (rule hypotheses_loop_rel [where R = "(=)"])
       (simp_all add: raise_if_falsy_seen raise_if_falsy_world)
  then show ?thesis
    by (simp add: generate_hypotheses_loop_result [OF Inr])
qed

lemma hypothesis_vis_loop_skip:
  assumes "subscript d ''generated_hypothesis'' = Inr h"
    and "fst (generate_visualization sd (''Scientific visualization of hypothesis: '' @ py_str env h)
              (path_div (vis_dir env) (''hypothesis_'' @ t @ ''.png'')) st) = None"
  shows "hypothesis_vis_loop env sd ((t, d) # rest) res st
           = hypothesis_vis_loop env sd rest res
               (snd (generate_visualization sd
                       (''Scientific visualization of hypothesis: '' @ py_str env h)
                       (path_div (vis_dir env) (''hypothesis_'' @ t @ ''.png'')) st))"
proof -
  let ?g = "generate_visualization sd (''Scientific visualization of hypothesis: '' @ py_str env h)
              (path_div (vis_dir env) (''hypothesis_'' @ t @ ''.png'')) st"
  have g: "?g = (None, snd ?g)"
    using assms(2) by (metis prod.collapse)
  show ?thesis
    unfolding hypothesis_vis_loop_step [OF assms(1) g] by simp
qed

lemma results_vis_loop_skip:
  assumes "subscript d ''feature_importance'' = Inr fi" and "py_len fi = Inr n"
    and "fst (generate_visualization sd
               (''Scientific data visualization showing relationship between '' @ show_nat n
                  @ '' features'')
               (path_div (vis_dir env) (''results_'' @ t @ ''.png'')) st) = None"
  shows "results_vis_loop env sd ((t, d) # rest) res st
           = results_vis_loop env sd rest res
               (snd (generate_visualization sd
                       (''Scientific data visualization showing relationship between ''
                          @ show_nat n @ '' features'')
                       (path_div (vis_dir env) (''results_'' @ t @ ''.png'')) st))"
proof -
  let ?g = "generate_visualization sd
               (''Scientific data visualization showing relationship between '' @ show_nat n
                  @ '' features'')
               (path_div (vis_dir env) (''results_'' @ t @ ''.png'')) st"
  have g: "?g = (None, snd ?g)"
    using assms(3) by (metis prod.collapse)
  show ?thesis
    unfolding results_vis_loop_step [OF assms(1,2) g] by simp
qed


lemma generate_hypotheses_all_fail:
  assumes l: "load_json env (literature_path env) st = Inr lit"
    and c: "contexts_of lit = Inr cs"
    and f: "\<forall>w c. fails_or_empty (post w c)"
  shows "fst (generate_hypotheses env post st) = Inr []"
proof -
  let ?st1 = "log_msg (LogInfo ''Starting hypothesis generation'') st"
  from hypotheses_loop_attempts_all [OF c, of post "[]" ?st1]
  have "\<exists>h. fst (hypotheses_loop post lit [] ?st1) = Inr h" by (rule conjunct1)
  then obtain h where h: "fst (hypotheses_loop post lit [] ?st1) = Inr h" ..
  from hypotheses_loop_all_fail [OF h f] have "h = []" .
  with h show ?thesis
    by (simp add: generate_hypotheses_loop_result [OF l])
qed

lemma sample_tr_none_fails: "\<forall>p w. p \<in> set sample_papers \<longrightarrow> fails_or_empty (sample_tr_none w (content p))"
  by (simp add: fails_or_empty_def sample_tr_none_def)

lemma sample_post_none_fails: "\<forall>w c. fails_or_empty (sample_post_none w c)"
  by (simp add: fails_or_empty_def sample_post_none_def)


lemma sample_render_fails:
  "fst (generate_visualization sample_sd_fail prompt p s) = None"
  by (simp add: generate_visualization_def sample_sd_fail_def)

lemma sample_paper_b_fails:
  "\<forall>p w. p \<in> set sample_papers \<and> title p = ''PaperB''
           \<longrightarrow> fails_or_empty (sample_tr_none w (content p))"
  using sample_tr_none_fails by simp

lemma sample_entry_b_fails:
  "\<forall>a c w. (''PaperB'', a) \<in> set sample_lit \<and> context_of a = Inr c
             \<longrightarrow> fails_or_empty (sample_post_none w (hypothesis_prompt c))"
  using sample_post_none_fails by simp

lemma sample_none_run:
  "fst (generate_hypotheses sample_env sample_post_none sample_state) = Inr []"
  by (rule generate_hypotheses_all_fail [OF sample_load sample_contexts sample_post_none_fails])

lemma paths_distinct:
  "hypotheses_path env \<noteq> literature_path env"
  "metadata_path env \<noteq> hypotheses_path env"
  "metadata_path env \<noteq> experimental_path env"
  by (simp_all add: hypotheses_path_def literature_path_def metadata_path_def
        experimental_path_def vis_dir_def)

lemma analyze_papers_deterministic:
  assumes "deterministic tr"
  shows "fst (analyze_papers env tr papers st') = fst (analyze_papers env tr papers st)"
  unfolding analyze_papers_run(1)
  by (rule stored_attempts_rel [where R = "\<lambda>w w'. True"])
     (simp_all add: try_analyze_deterministic [OF assms])

lemma generate_hypotheses_files_gen:
  "files (snd (generate_hypotheses env post st))
     = (case load_json env (literature_path env) st of
          Inl e \<Rightarrow> files st
        | Inr lit \<Rightarrow>
            (case fst (generate_hypotheses env post st) of
               Inl e \<Rightarrow> files st
             | Inr h \<Rightarrow> (files st)(hypotheses_path env \<mapsto> dumps env (JObj h))))"
proof (cases "load_json env (literature_path env) st")
  case (Inl e)
  then have "load_json env (literature_path env)
               (log_msg (LogInfo ''Starting hypothesis generation'') st) = Inl e"
    by (simp add: load_json_def)
  then show ?thesis
    by (simp add: generate_hypotheses_def Inl)
next
  case (Inr lit)
  let ?st1 = "log_msg (LogInfo ''Starting hypothesis generation'') st"
  obtain r st2 where l: "hypotheses_loop post lit [] ?st1 = (r, st2)"
    by (cases "hypotheses_loop post lit [] ?st1")
  have f: "files st2 = files st"
    using hypotheses_loop_files [of post lit "[]" ?st1] l by simp
  show ?thesis
    by (cases r) (simp_all add: generate_hypotheses_run [OF Inr] l f Inr)
qed

lemma generate_hypotheses_deterministic:
  assumes d: "deterministic post"
    and f: "files st' (literature_path env) = files st (literature_path env)"
  shows "fst (generate_hypotheses env post st') = fst (generate_hypotheses env post st)"
proof -
  have ld: "load_json env (literature_path env) st' = load_json env (literature_path env) st"
    by (rule load_json_cong [OF f])
  show ?thesis
  proof (cases "load_json env (literature_path env) st")
    case (Inl e)
    have "load_json env (literature_path env)
               (log_msg (LogInfo ''Starting hypothesis generation'') st) = Inl e"
      "load_json env (literature_path env)
               (log_msg (LogInfo ''Starting hypothesis generation'') st') = Inl e"
      using Inl ld by (simp_all add: load_json_def)
    then show ?thesis
      by (simp add: generate_hypotheses_def)
  next
    case (Inr lit)
    let ?m = "LogInfo ''Starting hypothesis generation''"
    have same: "api_seen (fst (post w x)) = api_seen (fst (post w' x)) \<and> True" for w w' x
      using d by (simp add: deterministic_def [of post, THEN iffD1, rule_format, of w x w'])
    have "fst (hypotheses_loop post lit [] (log_msg ?m st'))
            = fst (hypotheses_loop post lit [] (log_msg ?m st))
          \<and> True"
      by (rule hypotheses_loop_rel [where R = "\<lambda>w w'. True"]) (rule same, rule TrueI)
    then show ?thesis
      using Inr ld by (simp add: generate_hypotheses_loop_result)
  qed
qed

lemma hypothesis_vis_loop_deterministic:
  assumes "render_deterministic sd"
  shows "fst (hypothesis_vis_loop env sd items res st') = fst (hypothesis_vis_loop env sd items res st)"
proof (induction items arbitrary: res st st')
  case Nil
  show ?case by simp
next
  case (Cons td rest)
  obtain t d where td: "td = (t, d)" by (cases td)
  show ?case
  proof (cases "subscript d ''generated_hypothesis''")
    case (Inl e)
    then show ?thesis by (simp add: td)
  next
    case (Inr h)
    let ?pr = "''Scientific visualization of hypothesis: '' @ py_str env h"
    let ?out = "path_div (vis_dir env) (''hypothesis_'' @ t @ ''.png'')"
    obtain x1 s1 where g1: "generate_visualization sd ?pr ?out st = (x1, s1)"
      by (cases "generate_visualization sd ?pr ?out st")
    obtain x2 s2 where g2: "generate_visualization sd ?pr ?out st' = (x2, s2)"
      by (cases "generate_visualization sd ?pr ?out st'")
    have "fst (sd_render sd (world st') ?pr ?out) = fst (sd_render sd (world st) ?pr ?out)"
      using assms unfolding render_deterministic_def by blast
    then have "fst (generate_visualization sd ?pr ?out st') = fst (generate_visualization sd ?pr ?out st)"
      by (simp only: generate_visualization_result)
    then have x: "x2 = x1"
      unfolding g1 g2 by simp
    show ?thesis
      unfolding td hypothesis_vis_loop_step [OF Inr g1] hypothesis_vis_loop_step [OF Inr g2] x
      by (cases x1) (simp_all add: Cons.IH [of _ s2 s1])
  qed
qed

lemma results_vis_loop_deterministic:
  assumes "render_deterministic sd"
  shows "fst (results_vis_loop env sd items res st') = fst (results_vis_loop env sd items res st)"
proof (induction items arbitrary: res st st')
  case Nil
  show ?case by simp
next
  case (Cons td rest)
  obtain t d where td: "td = (t, d)" by (cases td)
  show ?case
  proof (cases "subscript d ''feature_importance''")
    case (Inl e)
    then show ?thesis by (simp add: td)
  next
    case (Inr fi)
    show ?thesis
    proof (cases "py_len fi")
      case (Inl e)
      then show ?thesis by (simp add: td Inr)
    next
      case n: (Inr n)
      let ?pr = "''Scientific data visualization showing relationship between ''
                   @ show_nat n @ '' features''"
      let ?out = "path_div (vis_dir env) (''results_'' @ t @ ''.png'')"
      obtain x1 s1 where g1: "generate_visualization sd ?pr ?out st = (x1, s1)"
        by (cases "generate_visualization sd ?pr ?out st")
      obtain x2 s2 where g2: "generate_visualization sd ?pr ?out st' = (x2, s2)"
        by (cases "generate_visualization sd ?pr ?out st'")
      have "fst (sd_render sd (world st') ?pr ?out) = fst (sd_render sd (world st) ?pr ?out)"
        using assms unfolding render_deterministic_def by blast
      then have "fst (generate_visualization sd ?pr ?out st') = fst (generate_visualization sd ?pr ?out st)"
        by (simp only: generate_visualization_result)
      then have x: "x2 = x1"
        unfolding g1 g2 by simp
      show ?thesis
        unfolding td results_vis_loop_step [OF Inr n g1] results_vis_loop_step [OF Inr n g2] x
        by (cases x1) (simp_all add: Cons.IH [of _ s2 s1])
    qed
  qed
qed

lemma generate_visualizations_deterministic:
  assumes d: "render_deterministic sd"
    and l: "load_results env st' = load_results env st"
    and o: "mkdir_error (vis_dir env) st' = mkdir_error (vis_dir env) st"
  shows "fst (generate_visualizations env sd st') = fst (generate_visualizations env sd st)"
proof (cases "mkdir_error (vis_dir env) st = None")
  case False
  then show ?thesis
    using o by (simp add: generate_visualizations_no_dir)
next
  case True
  then have True': "mkdir_error (vis_dir env) st' = None" using o by simp
  show ?thesis
  proof (cases "load_results env st")
    case (Inl e)
    then show ?thesis
      using l by (simp add: generate_visualizations_load_fail [OF True]
                    generate_visualizations_load_fail [OF True'])
  next
    case (Inr inputs)
    obtain hyps analysis where i: "inputs = (hyps, analysis)" by (cases inputs)
    have l1: "load_results env st = Inr (hyps, analysis)"
      and l2: "load_results env st' = Inr (hyps, analysis)"
      using Inr i l by simp_all
    obtain r0 w1 where ld1: "sd_load sd (world st) = (r0, w1)" by (cases "sd_load sd (world st)")
    obtain r0' w2 where ld2: "sd_load sd (world st') = (r0', w2)" by (cases "sd_load sd (world st')")
    have "fst (sd_load sd (world st')) = fst (sd_load sd (world st))"
      using d unfolding render_deterministic_def by blast
    then have r0: "r0' = r0" by (simp add: ld1 ld2)
    let ?s1 = "(vis_started env st)\<lparr>world := w1\<rparr>"
    let ?s2 = "(vis_started env st')\<lparr>world := w2\<rparr>"
    obtain a1 t1 where h1: "hypothesis_vis_loop env sd hyps [] ?s1 = (a1, t1)"
      by (cases "hypothesis_vis_loop env sd hyps [] ?s1")
    obtain a2 t2 where h2: "hypothesis_vis_loop env sd hyps [] ?s2 = (a2, t2)"
      by (cases "hypothesis_vis_loop env sd hyps [] ?s2")
    have a: "a2 = a1"
      using hypothesis_vis_loop_deterministic [OF d, of env hyps "[]" ?s2 ?s1] h1 h2 by simp
    show ?thesis
    proof (cases r0)
      case (Inl e)
      then show ?thesis
        by (simp add: generate_visualizations_loaded [OF True l1]
              generate_visualizations_loaded [OF True' l2] ld1 ld2 r0)
    next
      case u: (Inr u)
      show ?thesis
      proof (cases a1)
        case (Inl e)
        then show ?thesis
          by (simp add: generate_visualizations_loaded [OF True l1]
                generate_visualizations_loaded [OF True' l2] ld1 ld2 r0 u h1 h2 a)
      next
        case res1: (Inr res1)
        obtain b1 u1 where q1: "results_vis_loop env sd analysis res1 t1 = (b1, u1)"
          by (cases "results_vis_loop env sd analysis res1 t1")
        obtain b2 u2 where q2: "results_vis_loop env sd analysis res1 t2 = (b2, u2)"
          by (cases "results_vis_loop env sd analysis res1 t2")
        have b: "b2 = b1"
          using results_vis_loop_deterministic [OF d, of env analysis res1 t2 t1] q1 q2 by simp
        show ?thesis
          by (cases b1)
             (simp_all add: generate_visualizations_loaded [OF True l1]
                generate_visualizations_loaded [OF True' l2] ld1 ld2 r0 u h1 h2 a res1 q1 q2 b)
      qed
    qed
  qed
qed

lemma analyze_papers_rerun:
  assumes "deterministic tr"
  shows "fst (analyze_papers env tr papers (snd (analyze_papers env tr papers st)))
           = fst (analyze_papers env tr papers st)
         \<and> files (snd (analyze_papers env tr papers (snd (analyze_papers env tr papers st))))
           = files (snd (analyze_papers env tr papers st))"
proof -
  let ?st1 = "snd (analyze_papers env tr papers st)"
  have r: "fst (analyze_papers env tr papers ?st1) = fst (analyze_papers env tr papers st)"
    by (rule analyze_papers_deterministic [OF assms])
  have "files (snd (analyze_papers env tr papers ?st1)) = files ?st1"
  proof (cases "papers = []")
    case True
    then show ?thesis
      by (simp add: analyze_papers_none)
  next
    case False
    then show ?thesis
      unfolding analyze_papers_files [of env tr papers ?st1] r
      by (simp add: analyze_papers_files [of env tr papers st])
  qed
  with r show ?thesis by simp
qed

lemma generate_hypotheses_rerun:
  assumes "deterministic post"
  shows "fst (generate_hypotheses env post (snd (generate_hypotheses env post st)))
           = fst (generate_hypotheses env post st)
         \<and> files (snd (generate_hypotheses env post (snd (generate_hypotheses env post st))))
           = files (snd (generate_hypotheses env post st))"
proof -
  let ?st1 = "snd (generate_hypotheses env post st)"
  have same: "files ?st1 (literature_path env) = files st (literature_path env)"
    unfolding generate_hypotheses_files_gen [of env post st]
    using paths_distinct(1) [of env] by (simp split: sum.splits)
  have r: "fst (generate_hypotheses env post ?st1) = fst (generate_hypotheses env post st)"
    by (rule generate_hypotheses_deterministic [OF assms same])
  have ld: "load_json env (literature_path env) ?st1 = load_json env (literature_path env) st"
    by (rule load_json_cong [OF same])
  have "files (snd (generate_hypotheses env post ?st1)) = files ?st1"
    unfolding generate_hypotheses_files_gen [of env post ?st1] r ld
    by (simp add: generate_hypotheses_files_gen [of env post st] split: sum.splits)
  with r show ?thesis by simp
qed

lemma generate_visualizations_rerun:
  assumes "render_deterministic sd"
  shows "fst (generate_visualizations env sd (snd (generate_visualizations env sd st)))
           = fst (generate_visualizations env sd st)
         \<and> files (snd (generate_visualizations env sd (snd (generate_visualizations env sd st))))
           = files (snd (generate_visualizations env sd st))"
proof -
  let ?st1 = "snd (generate_visualizations env sd st)"
  have same: "files ?st1 (hypotheses_path env) = files st (hypotheses_path env)"
    "files ?st1 (experimental_path env) = files st (experimental_path env)"
    unfolding generate_visualizations_files [of env sd st]
    using paths_distinct(2,3) [of env] by (simp_all split: sum.splits)
  have ld: "load_results env ?st1 = load_results env st"
    by (rule load_results_cong [OF same])
  have o: "mkdir_error (vis_dir env) ?st1 = mkdir_error (vis_dir env) st"
  proof (cases "mkdir_error (vis_dir env) st = None")
    case True
    then have "vis_dir env \<in> dirs ?st1"
      by (simp add: generate_visualizations_dirs)
    then show ?thesis
      using True by (simp add: mkdir_error_def)
  next
    case False
    show ?thesis
      unfolding generate_visualizations_no_dir [OF False] by simp
  qed
  have r: "fst (generate_visualizations env sd ?st1) = fst (generate_visualizations env sd st)"
    by (rule generate_visualizations_deterministic [OF assms ld o])
  have "files (snd (generate_visualizations env sd ?st1)) = files ?st1"
    unfolding generate_visualizations_files [of env sd ?st1] r ld
    by (simp add: generate_visualizations_files [of env sd st] split: sum.splits)
  with r show ?thesis by simp
qed

lemma sample_deterministic:
  "deterministic sample_tr" "deterministic sample_post" "render_deterministic sample_sd"
  by (simp_all add: deterministic_def render_deterministic_def sample_tr_def sample_post_def
        sample_sd_def)

lemma write_chunks_opened:
  "files (write_chunks p cs (open_w p st)) = (files st)(p \<mapsto> concat cs)"
  using write_chunks_files [of "open_w p st" p "[]" cs] by (simp add: open_w_def)

lemma interrupted_dumps_prefix:
  "s \<in> set (interrupted_dumps env d p st) \<Longrightarrow>
     \<exists>n < length (iterencode env (JObj d)).
        files s = (files st)(p \<mapsto> concat (take n (iterencode env (JObj d))))"
  by (auto simp: interrupted_dumps_def write_chunks_opened)

lemma sample_meta_encoding: "iterencode sample_env (JObj sample_meta) = sample_meta_chunks"
  by (simp add: sample_env_def sample_iterencode_def)

lemma interrupted_dumps_nth:
  "n < length (iterencode env (JObj d)) \<Longrightarrow>
     files (interrupted_dumps env d p st ! n)
       = (files st)(p \<mapsto> concat (take n (iterencode env (JObj d))))"
  by (simp add: interrupted_dumps_def write_chunks_opened)

lemma sample_meta_chunks_length: "length sample_meta_chunks = 11"
  by (simp add: sample_meta_chunks_def)

lemma sample_meta_chunks_take3:
  \<open>concat (take 3 sample_meta_chunks) = ''{'' @ [CHR 0x0A] @ ''  "hypothesis_PaperA"''\<close>
  by (simp add: sample_meta_chunks_def)

section \<open>Failure isolation\<close>





section \<open>Missing input\<close>




section \<open>Conservation\<close>

text \<open>
  Claim C3, amended.  When the titles of the papers are pairwise distinct, the number of
  keys of the result plus the number of failures logged by the run equals the number of
  papers, and every paper is either processed (its title is a key of the result and its
  success is logged) or skipped (its title is no key of the result and its failure is
  logged).
\<close>

theorem conservation_for_distinct_titles:
  assumes "distinct (map title papers)"
  shows "length (fst (analyze_papers env tr papers st))
           + length (filter is_error (log (snd (analyze_papers env tr papers st))))
         = length papers + length (filter is_error (log st))
       \<and> (\<forall>p \<in> set papers.
             (title p \<in> fst ` set (fst (analyze_papers env tr papers st))
                \<and> LogInfo (''Successfully analyzed paper: '' @ title p)
                      \<in> set (log (snd (analyze_papers env tr papers st))))
           \<or> (title p \<notin> fst ` set (fst (analyze_papers env tr papers st))
                \<and> (\<exists>e. LogError (''Error analyzing paper '' @ title p) e
                      \<in> set (log (snd (analyze_papers env tr papers st))))))"
proof -
  let ?as = "attempts tr (world st) papers"
  let ?R = "analyze_papers env tr papers st"
  have fsts: "map fst ?as = papers" by (rule attempts_papers)
  have d: "distinct (map (\<lambda>a. title (fst a)) ?as)"
    using assms by (simp add: fsts flip: map_map [unfolded comp_def])
  have len: "length (fst ?R) = length (filter (\<lambda>a. \<not> is_error (attempt_log a)) ?as)"
    using stored_length [OF d, of "[]"] by (simp add: analyze_papers_run)
  have count: "length (fst ?R) + length (filter is_error (log (snd ?R)))
         = length papers + length (filter is_error (log st))"
    using filter_error_complement [of ?as]
    by (simp add: len analyze_papers_run(3) attempts_length)
  have each: "(title p \<in> fst ` set (fst ?R)
                \<and> LogInfo (''Successfully analyzed paper: '' @ title p) \<in> set (log (snd ?R)))
           \<or> (title p \<notin> fst ` set (fst ?R)
                \<and> (\<exists>e. LogError (''Error analyzing paper '' @ title p) e \<in> set (log (snd ?R))))"
    if p: "p \<in> set papers" for p
  proof -
    from p have ne: "papers \<noteq> []" by auto
    from p fsts obtain r where r: "(p, r) \<in> set ?as"
      by (metis (no_types, opaque_lifting) image_iff list.set_map prod.collapse)
    have inlog: "attempt_log (p, r) \<in> set (log (snd ?R))"
      using r by (simp add: analyze_papers_log [OF ne])
    show ?thesis
    proof (cases r)
      case (Inr v)
      have "title p \<in> fst ` set (fst ?R)"
        using r Inr by (auto simp: analyze_papers_run(1) stored_keys)
      with inlog Inr show ?thesis by simp
    next
      case (Inl e)
      have "title p \<notin> fst ` set (fst ?R)"
      proof
        assume "title p \<in> fst ` set (fst ?R)"
        then obtain q v where q: "(q, Inr v) \<in> set ?as" and t: "title q = title p"
          by (auto simp: analyze_papers_run(1) stored_keys)
        from q have "q \<in> set papers"
          by (metis fsts fst_conv image_eqI list.set_map)
        with p t assms have "q = p"
          by (meson distinct_map inj_onD)
        moreover have "distinct (map fst ?as)"
          using assms by (simp add: fsts distinct_map)
        ultimately have "Inr v = r"
          using q r by (metis eq_key_imp_eq_value)
        with Inl show False by simp
      qed
      with inlog Inl show ?thesis by auto
    qed
  qed
  show ?thesis
    using count each by blast
qed

text \<open>
  Two papers of the same title: both succeed, the second overwrites the first, and the
  result has one key for two items with no failure logged.
\<close>

theorem conservation_counterexample:
  "length (fst (analyze_papers sample_env sample_tr twin_papers empty_state)) = 1
   \<and> length (filter is_error (log (snd (analyze_papers sample_env sample_tr twin_papers empty_state)))) = 0
   \<and> length twin_papers = 2"
  by code_simp

theorem conservation_for_distinct_titles_witness:
  "distinct (map title sample_papers)
   \<and> length (fst (analyze_papers sample_env sample_tr sample_papers empty_state))
           + length (filter is_error (log (snd (analyze_papers sample_env sample_tr sample_papers empty_state))))
         = length sample_papers + length (filter is_error (log empty_state))"
proof -
  have d: "distinct (map title sample_papers)"
    by (simp add: sample_papers_def)
  show ?thesis
    using d conservation_for_distinct_titles [OF d, of sample_env sample_tr empty_state] by blast
qed

section \<open>Key sets\<close>

text \<open>
  Claim C4, amended.  When the endpoint answers every call with a truthy response, the keys
  of the hypotheses returned are exactly the keys of the literature analysis, each once.
  When every image is rendered, the keys of the visualization metadata are the keys of
  the hypotheses, each prefixed with \<^verbatim>\<open>hypothesis_\<close>, together with the keys of the
  experimental analysis, each prefixed with \<^verbatim>\<open>results_\<close>, each once.
\<close>

theorem key_sets_of_outputs:
  "(load_json env (literature_path env) st = Inr lit
      \<and> fst (generate_hypotheses env post st) = Inr hyps
      \<and> (\<forall>w c. \<exists>r. fst (post w c) = Inr r \<and> truthy r)
    \<longrightarrow> fst ` set hyps = fst ` set lit \<and> distinct (map fst hyps))
   \<and> (load_results env st = Inr (hypotheses, analysis)
      \<and> fst (generate_visualizations env sd st) = Inr res
      \<and> (\<forall>w prompt p. fst (sd_render sd w prompt p) = Inr ())
    \<longrightarrow> fst ` set res = (\<lambda>k. ''hypothesis_'' @ k) ` fst ` set hypotheses
                          \<union> (\<lambda>k. ''results_'' @ k) ` fst ` set analysis
        \<and> distinct (map fst res))"
proof -
  have a: "fst ` set hyps = fst ` set lit \<and> distinct (map fst hyps)"
    if l: "load_json env (literature_path env) st = Inr lit"
      and r: "fst (generate_hypotheses env post st) = Inr hyps"
      and ok: "\<forall>w c. \<exists>r. fst (post w c) = Inr r \<and> truthy r"
  proof -
    let ?st1 = "log_msg (LogInfo ''Starting hypothesis generation'') st"
    have run: "fst (hypotheses_loop post lit [] ?st1) = Inr hyps"
      using r by (simp add: generate_hypotheses_loop_result [OF l])
    show ?thesis
      using hypotheses_loop_keys [OF run ok] hypotheses_loop_distinct [OF run] by simp
  qed
  have b: "fst ` set res = (\<lambda>k. ''hypothesis_'' @ k) ` fst ` set hypotheses
                          \<union> (\<lambda>k. ''results_'' @ k) ` fst ` set analysis
        \<and> distinct (map fst res)"
    if "load_results env st = Inr (hypotheses, analysis)"
      and "fst (generate_visualizations env sd st) = Inr res"
      and "\<forall>w prompt p. fst (sd_render sd w prompt p) = Inr ()"
    using generate_visualizations_keys [OF that(1) that(3) that(2)] .
  show ?thesis
  proof (rule conjI; rule impI)
    assume "load_json env (literature_path env) st = Inr lit
      \<and> fst (generate_hypotheses env post st) = Inr hyps
      \<and> (\<forall>w c. \<exists>r. fst (post w c) = Inr r \<and> truthy r)"
    then show "fst ` set hyps = fst ` set lit \<and> distinct (map fst hyps)"
      using a by simp
  next
    assume "load_results env st = Inr (hypotheses, analysis)
      \<and> fst (generate_visualizations env sd st) = Inr res
      \<and> (\<forall>w prompt p. fst (sd_render sd w prompt p) = Inr ())"
    then have "load_results env st = Inr (hypotheses, analysis)"
      "fst (generate_visualizations env sd st) = Inr res"
      "\<forall>w prompt p. fst (sd_render sd w prompt p) = Inr ()"
      by simp_all
    then show "fst ` set res = (\<lambda>k. ''hypothesis_'' @ k) ` fst ` set hypotheses
                          \<union> (\<lambda>k. ''results_'' @ k) ` fst ` set analysis
        \<and> distinct (map fst res)"
      by (rule b)
  qed
qed

text \<open>
  The visualizer on one hypothesis and one data set, every image rendered: the key
  \<^verbatim>\<open>PaperA\<close> of the primary input is not a key of the output.
\<close>

theorem key_sets_counterexample:
  "load_results sample_env vis_state = Inr (sample_hyps, sample_exp)
   \<and> map fst sample_hyps = [''PaperA'']
   \<and> fst (generate_visualizations sample_env sample_sd vis_state) = Inr sample_meta
   \<and> map fst sample_meta = [''hypothesis_PaperA'', ''results_trial1'']"
  using vis_state_load vis_state_run by (simp add: sample_hyps_def sample_meta_def)

theorem key_sets_of_outputs_witness:
  "(load_json sample_env (literature_path sample_env) sample_state = Inr sample_lit
    \<and> (\<forall>w c. \<exists>r. fst (sample_post_ok w c) = Inr r \<and> truthy r)
    \<and> (\<exists>hyps. fst (generate_hypotheses sample_env sample_post_ok sample_state) = Inr hyps
          \<and> fst ` set hyps = fst ` set sample_lit \<and> distinct (map fst hyps)))
   \<and> (load_results sample_env vis_state = Inr (sample_hyps, sample_exp)
    \<and> fst (generate_visualizations sample_env sample_sd vis_state) = Inr sample_meta
    \<and> (\<forall>w prompt p. fst (sd_render sample_sd w prompt p) = Inr ())
    \<and> fst ` set sample_meta = (\<lambda>k. ''hypothesis_'' @ k) ` fst ` set sample_hyps
                          \<union> (\<lambda>k. ''results_'' @ k) ` fst ` set sample_exp
    \<and> distinct (map fst sample_meta))"
proof -
  have ok: "\<forall>w prompt p. fst (sd_render sample_sd w prompt p) = Inr ()"
    by (simp add: sample_sd_def)
  have t: "\<forall>w c. \<exists>r. fst (sample_post_ok w c) = Inr r \<and> truthy r"
    by (simp add: sample_post_ok_def)
  let ?st1 = "log_msg (LogInfo ''Starting hypothesis generation'') sample_state"
  have "\<exists>h. fst (hypotheses_loop sample_post_ok sample_lit [] ?st1) = Inr h"
    using hypotheses_loop_attempts_all [OF sample_contexts, of sample_post_ok "[]" ?st1]
    by (rule conjunct1)
  then obtain hyps where "fst (hypotheses_loop sample_post_ok sample_lit [] ?st1) = Inr hyps" ..
  then have h: "fst (generate_hypotheses sample_env sample_post_ok sample_state) = Inr hyps"
    by (simp only: generate_hypotheses_loop_result [OF sample_load])
  note inst = key_sets_of_outputs
            [of sample_env _ sample_lit _ hyps sample_hyps sample_exp sample_sd sample_meta]
  have a: "fst ` set hyps = fst ` set sample_lit \<and> distinct (map fst hyps)"
    using inst [of sample_state sample_post_ok, THEN conjunct1] sample_load h t
    by (simp only: simp_thms)
  have b: "fst ` set sample_meta = (\<lambda>k. ''hypothesis_'' @ k) ` fst ` set sample_hyps
                          \<union> (\<lambda>k. ''results_'' @ k) ` fst ` set sample_exp
   \<and> distinct (map fst sample_meta)"
    using inst [of vis_state sample_post_ok, THEN conjunct2]
          vis_state_load vis_state_run ok
    by (simp only: simp_thms)
  have e: "\<exists>hyps. fst (generate_hypotheses sample_env sample_post_ok sample_state) = Inr hyps
          \<and> fst ` set hyps = fst ` set sample_lit \<and> distinct (map fst hyps)"
    using h a by (intro exI [of _ hyps] conjI) (simp_all only:)
  show ?thesis
    using sample_load t e vis_state_load vis_state_run ok b [THEN conjunct1] b [THEN conjunct2]
    by (intro conjI) assumption+
qed

section \<open>Empty results\<close>

text \<open>
  Claim C5.  An item whose transform returns a falsy value is skipped as if the transform
  had raised.  For \<^verbatim>\<open>analyze_papers\<close> and \<^verbatim>\<open>generate_hypotheses\<close>, the mapping returned is
  the same when every falsy return of the collaborator is replaced by an exception, and a
  key all of whose items fail or come back falsy is absent from it.  In the two loops of
  the visualizer, an item for which \<^verbatim>\<open>generate_visualization\<close> returns \<^verbatim>\<open>None\<close> leaves the
  results as they are and the loop goes on with the next item.
\<close>

theorem empty_result_is_skipped:
  "fst (analyze_papers env (raise_if_falsy e0 tr) papers st) = fst (analyze_papers env tr papers st)
   \<and> fst (generate_hypotheses env (raise_if_falsy e0 post) st)
       = fst (generate_hypotheses env post st)
   \<and> ((\<forall>p w. p \<in> set papers \<and> title p = k \<longrightarrow> fails_or_empty (tr w (content p)))
        \<longrightarrow> k \<notin> fst ` set (fst (analyze_papers env tr papers st)))
   \<and> (load_json env (literature_path env) st = Inr lit
        \<and> fst (generate_hypotheses env post st) = Inr hyps
        \<and> (\<forall>a c w. (k, a) \<in> set lit \<and> context_of a = Inr c
                     \<longrightarrow> fails_or_empty (post w (hypothesis_prompt c)))
        \<longrightarrow> k \<notin> fst ` set hyps)
   \<and> (subscript d ''generated_hypothesis'' = Inr h
        \<and> fst (generate_visualization sd
                  (''Scientific visualization of hypothesis: '' @ py_str env h)
                  (path_div (vis_dir env) (''hypothesis_'' @ t @ ''.png'')) vst) = None
        \<longrightarrow> hypothesis_vis_loop env sd ((t, d) # rest) res vst
             = hypothesis_vis_loop env sd rest res
                 (snd (generate_visualization sd
                         (''Scientific visualization of hypothesis: '' @ py_str env h)
                         (path_div (vis_dir env) (''hypothesis_'' @ t @ ''.png'')) vst)))
   \<and> (subscript d' ''feature_importance'' = Inr fi \<and> py_len fi = Inr n
        \<and> fst (generate_visualization sd
                  (''Scientific data visualization showing relationship between ''
                     @ show_nat n @ '' features'')
                  (path_div (vis_dir env) (''results_'' @ t' @ ''.png'')) vst) = None
        \<longrightarrow> results_vis_loop env sd ((t', d') # rest) res vst
             = results_vis_loop env sd rest res
                 (snd (generate_visualization sd
                         (''Scientific data visualization showing relationship between ''
                            @ show_nat n @ '' features'')
                         (path_div (vis_dir env) (''results_'' @ t' @ ''.png'')) vst)))"
proof (intro conjI impI)
  show "fst (analyze_papers env (raise_if_falsy e0 tr) papers st) = fst (analyze_papers env tr papers st)"
    by (rule analyze_papers_raise_if_falsy)
  show "fst (generate_hypotheses env (raise_if_falsy e0 post) st)
       = fst (generate_hypotheses env post st)"
    by (rule generate_hypotheses_raise_if_falsy)
next
  assume "\<forall>p w. p \<in> set papers \<and> title p = k \<longrightarrow> fails_or_empty (tr w (content p))"
  then show "k \<notin> fst ` set (fst (analyze_papers env tr papers st))"
    by (rule analyze_papers_omits)
next
  assume a: "load_json env (literature_path env) st = Inr lit
        \<and> fst (generate_hypotheses env post st) = Inr hyps
        \<and> (\<forall>a c w. (k, a) \<in> set lit \<and> context_of a = Inr c
                     \<longrightarrow> fails_or_empty (post w (hypothesis_prompt c)))"
  show "k \<notin> fst ` set hyps"
    by (rule generate_hypotheses_omits [OF a [THEN conjunct1] a [THEN conjunct2, THEN conjunct1]
          a [THEN conjunct2, THEN conjunct2]])
next
  assume a: "subscript d ''generated_hypothesis'' = Inr h
        \<and> fst (generate_visualization sd
                  (''Scientific visualization of hypothesis: '' @ py_str env h)
                  (path_div (vis_dir env) (''hypothesis_'' @ t @ ''.png'')) vst) = None"
  show "hypothesis_vis_loop env sd ((t, d) # rest) res vst
             = hypothesis_vis_loop env sd rest res
                 (snd (generate_visualization sd
                         (''Scientific visualization of hypothesis: '' @ py_str env h)
                         (path_div (vis_dir env) (''hypothesis_'' @ t @ ''.png'')) vst))"
    by (rule hypothesis_vis_loop_skip [OF a [THEN conjunct1] a [THEN conjunct2]])
next
  assume a: "subscript d' ''feature_importance'' = Inr fi \<and> py_len fi = Inr n
        \<and> fst (generate_visualization sd
                  (''Scientific data visualization showing relationship between ''
                     @ show_nat n @ '' features'')
                  (path_div (vis_dir env) (''results_'' @ t' @ ''.png'')) vst) = None"
  show "results_vis_loop env sd ((t', d') # rest) res vst
             = results_vis_loop env sd rest res
                 (snd (generate_visualization sd
                         (''Scientific data visualization showing relationship between ''
                            @ show_nat n @ '' features'')
                         (path_div (vis_dir env) (''results_'' @ t' @ ''.png'')) vst))"
    by (rule results_vis_loop_skip [OF a [THEN conjunct1] a [THEN conjunct2, THEN conjunct1]
          a [THEN conjunct2, THEN conjunct2]])
qed

theorem empty_result_is_skipped_witness:
  "''PaperB'' \<notin> fst ` set (fst (analyze_papers sample_env sample_tr_none sample_papers
                                      empty_state))
   \<and> (load_json sample_env (literature_path sample_env) sample_state = Inr sample_lit
     \<and> fst (generate_hypotheses sample_env sample_post_none sample_state) = Inr []
     \<and> ''PaperB'' \<notin> fst ` set ([] :: dict))
   \<and> (subscript (JObj [(''generated_hypothesis'', JStr ''H'')]) ''generated_hypothesis''
         = Inr (JStr ''H'')
     \<and> fst (generate_visualization sample_sd_fail
               (''Scientific visualization of hypothesis: '' @ py_str sample_env (JStr ''H''))
               (path_div (vis_dir sample_env) (''hypothesis_'' @ ''PaperA'' @ ''.png'')) vis_state) = None
     \<and> hypothesis_vis_loop sample_env sample_sd_fail
          [(''PaperA'', JObj [(''generated_hypothesis'', JStr ''H'')])] [] vis_state
        = hypothesis_vis_loop sample_env sample_sd_fail [] []
            (snd (generate_visualization sample_sd_fail
               (''Scientific visualization of hypothesis: '' @ py_str sample_env (JStr ''H''))
               (path_div (vis_dir sample_env) (''hypothesis_'' @ ''PaperA'' @ ''.png'')) vis_state)))
   \<and> (subscript (JObj [(''feature_importance'', JArr [JNum 1])]) ''feature_importance''
         = Inr (JArr [JNum 1])
     \<and> py_len (JArr [JNum 1]) = Inr 1
     \<and> fst (generate_visualization sample_sd_fail
               (''Scientific data visualization showing relationship between '' @ show_nat 1
                  @ '' features'')
               (path_div (vis_dir sample_env) (''results_'' @ ''trial1'' @ ''.png'')) vis_state) = None
     \<and> results_vis_loop sample_env sample_sd_fail
          [(''trial1'', JObj [(''feature_importance'', JArr [JNum 1])])] [] vis_state
        = results_vis_loop sample_env sample_sd_fail [] []
            (snd (generate_visualization sample_sd_fail
               (''Scientific data visualization showing relationship between '' @ show_nat 1
                  @ '' features'')
               (path_div (vis_dir sample_env) (''results_'' @ ''trial1'' @ ''.png'')) vis_state)))"
proof -
  note inst = empty_result_is_skipped
    [of sample_env "OtherError ''empty''" sample_tr_none sample_papers _ sample_post_none
        "''PaperB''" sample_lit "[]"
        "JObj [(''generated_hypothesis'', JStr ''H'')]" "JStr ''H''" sample_sd_fail
        "''PaperA''" vis_state "[]" "[]"
        "JObj [(''feature_importance'', JArr [JNum 1])]" "JArr [JNum 1]" 1 "''trial1''"]
  have s1: "subscript (JObj [(''generated_hypothesis'', JStr ''H'')]) ''generated_hypothesis''
         = Inr (JStr ''H'')"
    by simp
  have s2: "subscript (JObj [(''feature_importance'', JArr [JNum 1])]) ''feature_importance''
         = Inr (JArr [JNum 1])"
    by simp
  have s3: "py_len (JArr [JNum 1]) = Inr 1"
    by simp
  have c3: "''PaperB'' \<notin> fst ` set (fst (analyze_papers sample_env sample_tr_none sample_papers
                                        empty_state))"
    by (rule inst [of empty_state, THEN conjunct2, THEN conjunct2, THEN conjunct1, THEN mp])
       (rule sample_paper_b_fails)
  have c4: "''PaperB'' \<notin> fst ` set ([] :: dict)"
    by (rule inst [of sample_state, THEN conjunct2, THEN conjunct2, THEN conjunct2,
                   THEN conjunct1, THEN mp])
       (intro conjI sample_load sample_none_run sample_entry_b_fails)
  have c5: "hypothesis_vis_loop sample_env sample_sd_fail
          [(''PaperA'', JObj [(''generated_hypothesis'', JStr ''H'')])] [] vis_state
        = hypothesis_vis_loop sample_env sample_sd_fail [] []
            (snd (generate_visualization sample_sd_fail
               (''Scientific visualization of hypothesis: '' @ py_str sample_env (JStr ''H''))
               (path_div (vis_dir sample_env) (''hypothesis_'' @ ''PaperA'' @ ''.png'')) vis_state))"
    by (rule inst [of empty_state, THEN conjunct2, THEN conjunct2, THEN conjunct2,
                   THEN conjunct2, THEN conjunct1, THEN mp])
       (intro conjI s1 sample_render_fails)
  have c6: "results_vis_loop sample_env sample_sd_fail
          [(''trial1'', JObj [(''feature_importance'', JArr [JNum 1])])] [] vis_state
        = results_vis_loop sample_env sample_sd_fail [] []
            (snd (generate_visualization sample_sd_fail
               (''Scientific data visualization showing relationship between '' @ show_nat 1
                  @ '' features'')
               (path_div (vis_dir sample_env) (''results_'' @ ''trial1'' @ ''.png'')) vis_state))"
    by (rule inst [of empty_state, THEN conjunct2, THEN conjunct2, THEN conjunct2,
                   THEN conjunct2, THEN conjunct2, THEN mp])
       (intro conjI s2 s3 sample_render_fails)
  show ?thesis
    by (intro conjI c3 sample_load sample_none_run c4 s1 sample_render_fails c5 s2 s3 c6)
qed

section \<open>A batch in which every item fails\<close>




section \<open>Writing an artifact\<close>

text \<open>
  Claim C7, amended.  A completed write replaces the file: after \<^verbatim>\<open>json.dump\<close> into the file
  opened for writing, and after \<^verbatim>\<open>save_json\<close>, the file holds the encoding of the new
  mapping whatever it held before, and no other file has changed; this is how
  \<^verbatim>\<open>generate_visualizations\<close> leaves \<^verbatim>\<open>visualization_metadata.json\<close>.  The write of the
  visualizer is made in place: an interruption after the file was opened leaves it with
  the chunks written so far, a proper prefix of the encoding, the empty file at first.
\<close>

theorem metadata_written_in_place:
  "files (json_dump_file env d p st) = (files st)(p \<mapsto> concat (iterencode env (JObj d)))
   \<and> files (save_json env d p st) = (files st)(p \<mapsto> dumps env (JObj d))
   \<and> (\<forall>s \<in> set (interrupted_dumps env d p st).
         \<exists>n < length (iterencode env (JObj d)).
           files s = (files st)(p \<mapsto> concat (take n (iterencode env (JObj d)))))
   \<and> (load_results env st = Inr inputs \<and> fst (generate_visualizations env sd st) = Inr res
        \<longrightarrow> files (snd (generate_visualizations env sd st))
              = (files st)(metadata_path env \<mapsto> concat (iterencode env (JObj res))))"
proof (intro conjI ballI impI)
  show "files (json_dump_file env d p st) = (files st)(p \<mapsto> concat (iterencode env (JObj d)))"
    by simp
  show "files (save_json env d p st) = (files st)(p \<mapsto> dumps env (JObj d))"
    by simp
next
  fix s
  assume "s \<in> set (interrupted_dumps env d p st)"
  then show "\<exists>n < length (iterencode env (JObj d)).
           files s = (files st)(p \<mapsto> concat (take n (iterencode env (JObj d))))"
    by (rule interrupted_dumps_prefix)
next
  assume "load_results env st = Inr inputs \<and> fst (generate_visualizations env sd st) = Inr res"
  then show "files (snd (generate_visualizations env sd st))
              = (files st)(metadata_path env \<mapsto> concat (iterencode env (JObj res)))"
    by (simp add: generate_visualizations_files)
qed

text \<open>
  An older metadata file is being replaced.  Interrupted right after \<^verbatim>\<open>open\<close>, the file is
  empty; interrupted after three of the eleven chunks, it holds the beginning of the
  new document.  Neither is the old content or the new.
\<close>

theorem metadata_write_counterexample:
  \<open>files vis_state (metadata_path sample_env) = Some sample_old_meta_text
   \<and> files (interrupted_dumps sample_env sample_meta (metadata_path sample_env) vis_state ! 0)
        (metadata_path sample_env) = Some []
   \<and> files (interrupted_dumps sample_env sample_meta (metadata_path sample_env) vis_state ! 3)
        (metadata_path sample_env) = Some (''{'' @ [CHR 0x0A] @ ''  "hypothesis_PaperA"'')
   \<and> length (interrupted_dumps sample_env sample_meta (metadata_path sample_env) vis_state) = 11\<close>
proof -
  have old: "files vis_state (metadata_path sample_env) = Some sample_old_meta_text"
    by (simp add: vis_state_def metadata_path_def vis_dir_def sample_env_def)
  have len: "length (interrupted_dumps sample_env sample_meta (metadata_path sample_env) vis_state) = 11"
    by (simp add: interrupted_dumps_def sample_meta_encoding sample_meta_chunks_length)
  have n0: "files (interrupted_dumps sample_env sample_meta (metadata_path sample_env) vis_state ! 0)
        (metadata_path sample_env) = Some []"
    using interrupted_dumps_nth [of 0 sample_env sample_meta "metadata_path sample_env" vis_state]
    by (simp add: sample_meta_encoding sample_meta_chunks_length)
  have n3: \<open>files (interrupted_dumps sample_env sample_meta (metadata_path sample_env) vis_state ! 3)
        (metadata_path sample_env) = Some (''{'' @ [CHR 0x0A] @ ''  "hypothesis_PaperA"'')\<close>
    using interrupted_dumps_nth [of 3 sample_env sample_meta "metadata_path sample_env" vis_state]
    by (simp add: sample_meta_encoding sample_meta_chunks_length sample_meta_chunks_take3)
  show ?thesis
    by (intro conjI old n0 n3 len)
qed

theorem metadata_written_in_place_witness:
  "load_results sample_env vis_state = Inr (sample_hyps, sample_exp)
   \<and> fst (generate_visualizations sample_env sample_sd vis_state) = Inr sample_meta
   \<and> files (snd (generate_visualizations sample_env sample_sd vis_state))
       = (files vis_state)(metadata_path sample_env \<mapsto> concat sample_meta_chunks)
   \<and> interrupted_dumps sample_env sample_meta (metadata_path sample_env) vis_state ! 0
       \<in> set (interrupted_dumps sample_env sample_meta (metadata_path sample_env) vis_state)
   \<and> (\<exists>n < length sample_meta_chunks.
         files (interrupted_dumps sample_env sample_meta (metadata_path sample_env) vis_state ! 0)
           = (files vis_state)(metadata_path sample_env
                \<mapsto> concat (take n sample_meta_chunks)))"
proof -
  note inst = metadata_written_in_place
                [of sample_env sample_meta "metadata_path sample_env" vis_state
                    "(sample_hyps, sample_exp)" sample_sd sample_meta,
                 unfolded sample_meta_encoding]
  have f: "files (snd (generate_visualizations sample_env sample_sd vis_state))
       = (files vis_state)(metadata_path sample_env \<mapsto> concat sample_meta_chunks)"
    by (rule inst [THEN conjunct2, THEN conjunct2, THEN conjunct2, THEN mp])
       (intro conjI vis_state_load vis_state_run)
  have m: "interrupted_dumps sample_env sample_meta (metadata_path sample_env) vis_state ! 0
       \<in> set (interrupted_dumps sample_env sample_meta (metadata_path sample_env) vis_state)"
    by (rule nth_mem)
       (simp add: interrupted_dumps_def sample_meta_encoding sample_meta_chunks_length)
  have e: "\<exists>n < length sample_meta_chunks.
         files (interrupted_dumps sample_env sample_meta (metadata_path sample_env) vis_state ! 0)
           = (files vis_state)(metadata_path sample_env
                \<mapsto> concat (take n sample_meta_chunks))"
    by (rule inst [THEN conjunct2, THEN conjunct2, THEN conjunct1, THEN bspec, OF m])
  show ?thesis
    by (intro conjI vis_state_load vis_state_run f m e)
qed

section \<open>Running a stage again\<close>

text \<open>
  Claim C8.  When the transform is deterministic (what it returns depends on its input
  only), running a stage a second time, on the state the first run left, returns the same
  mapping and leaves every file, the output artifact among them, byte for byte as the
  first run left it.  This holds for \<^verbatim>\<open>analyze_papers\<close>, \<^verbatim>\<open>generate_hypotheses\<close> and
  \<^verbatim>\<open>generate_visualizations\<close>.
\<close>

theorem rerun_writes_same_artifact:
  "(deterministic tr \<longrightarrow>
      fst (analyze_papers env tr papers (snd (analyze_papers env tr papers st)))
        = fst (analyze_papers env tr papers st)
      \<and> files (snd (analyze_papers env tr papers (snd (analyze_papers env tr papers st))))
        = files (snd (analyze_papers env tr papers st)))
   \<and> (deterministic post \<longrightarrow>
      fst (generate_hypotheses env post (snd (generate_hypotheses env post st)))
        = fst (generate_hypotheses env post st)
      \<and> files (snd (generate_hypotheses env post (snd (generate_hypotheses env post st))))
        = files (snd (generate_hypotheses env post st)))
   \<and> (render_deterministic sd \<longrightarrow>
      fst (generate_visualizations env sd (snd (generate_visualizations env sd st)))
        = fst (generate_visualizations env sd st)
      \<and> files (snd (generate_visualizations env sd (snd (generate_visualizations env sd st))))
        = files (snd (generate_visualizations env sd st)))"
  by (intro conjI impI analyze_papers_rerun [THEN conjunct1] analyze_papers_rerun [THEN conjunct2]
        generate_hypotheses_rerun [THEN conjunct1] generate_hypotheses_rerun [THEN conjunct2]
        generate_visualizations_rerun [THEN conjunct1] generate_visualizations_rerun [THEN conjunct2])

theorem rerun_writes_same_artifact_witness:
  "deterministic sample_tr \<and> deterministic sample_post \<and> render_deterministic sample_sd
   \<and> files (snd (analyze_papers sample_env sample_tr sample_papers
                   (snd (analyze_papers sample_env sample_tr sample_papers empty_state))))
       = files (snd (analyze_papers sample_env sample_tr sample_papers empty_state))
   \<and> files (snd (generate_hypotheses sample_env sample_post
                   (snd (generate_hypotheses sample_env sample_post sample_state))))
       = files (snd (generate_hypotheses sample_env sample_post sample_state))
   \<and> files (snd (generate_visualizations sample_env sample_sd
                   (snd (generate_visualizations sample_env sample_sd vis_state))))
       = files (snd (generate_visualizations sample_env sample_sd vis_state))"
proof -
  note inst = rerun_writes_same_artifact
                [of sample_tr sample_env sample_papers _ sample_post sample_sd]
  have a: "files (snd (analyze_papers sample_env sample_tr sample_papers
                   (snd (analyze_papers sample_env sample_tr sample_papers empty_state))))
       = files (snd (analyze_papers sample_env sample_tr sample_papers empty_state))"
    by (rule inst [of empty_state, THEN conjunct1, THEN mp, THEN conjunct2])
       (rule sample_deterministic)
  have b: "files (snd (generate_hypotheses sample_env sample_post
                   (snd (generate_hypotheses sample_env sample_post sample_state))))
       = files (snd (generate_hypotheses sample_env sample_post sample_state))"
    by (rule inst [of sample_state, THEN conjunct2, THEN conjunct1, THEN mp, THEN conjunct2])
       (rule sample_deterministic)
  have c: "files (snd (generate_visualizations sample_env sample_sd
                   (snd (generate_visualizations sample_env sample_sd vis_state))))
       = files (snd (generate_visualizations sample_env sample_sd vis_state))"
    by (rule inst [of vis_state, THEN conjunct2, THEN conjunct2, THEN mp, THEN conjunct2])
       (rule sample_deterministic)
  show ?thesis
    by (intro conjI sample_deterministic a b c)
qed

section \<open>The three best sentences\<close>

lemma sort_desc_mset: "mset (sort_desc f xs) = mset xs"
  by (simp add: sort_desc_def)

lemma sort_desc_length: "length (sort_desc f xs) = length xs"
  by (simp add: sort_desc_def)

lemma sort_desc_sorted: "sorted_wrt (\<lambda>a b. b \<le> a) (map f (sort_desc f xs))"
proof -
  have "sorted (map f (sort_key f (rev xs)))" by (rule sorted_sort_key)
  then show ?thesis
    by (simp add: sort_desc_def rev_map [symmetric] sorted_wrt_rev)
qed

lemma score_sentences_fail:
  "score_sentences bert cosine emb ss = Inl e \<Longrightarrow>
     \<exists>s. s \<in> set ss \<and> strip s \<noteq> [] \<and> bert 128 s = Inl e"
  by (induction ss) (auto split: if_splits sum.splits)

lemma score_sentences_ok:
  "score_sentences bert cosine emb ss = Inr scored \<Longrightarrow>
     map fst scored = map strip (filter (\<lambda>s. strip s \<noteq> []) ss)"
  by (induction ss arbitrary: scored) (auto split: if_splits sum.splits)

lemma take_drop_desc:
  assumes "sorted_wrt (\<lambda>a b. b \<le> a) (map f xs)"
  shows "\<forall>a \<in> set (map f (take n xs)). \<forall>b \<in> set (map f (drop n xs)). b \<le> a"
proof -
  have "sorted_wrt (\<lambda>a b. b \<le> a) (map f (take n xs) @ map f (drop n xs))"
    using assms by (simp add: map_append [symmetric] del: map_append)
  then show ?thesis
    unfolding sorted_wrt_append by blast
qed

lemma sorted_wrt_take_desc:
  "sorted_wrt P xs \<Longrightarrow> sorted_wrt P (take n xs)"
  by (metis append_take_drop_id sorted_wrt_append)

text \<open>
  Claim C9.  For every text, \<^verbatim>\<open>extract_key_insights\<close> either passes on an exception of the
  encoder, or returns key points and importance scores of equal length, as many as there
  are sentences (segments between dots that are not blank once stripped) up to three, the
  scores in non-increasing order, and no sentence left out scores higher than one that
  was selected.
\<close>

theorem extract_key_insights_top3:
  "(\<exists>e. extract_key_insights bert cosine text = Inl e \<and>
        (bert 512 text = Inl e \<or> (\<exists>s \<in> set (sentences_of text). bert 128 s = Inl e)))
   \<or> (\<exists>r scored. extract_key_insights bert cosine text = Inr r
        \<and> sentence_scores bert cosine text = Inr scored
        \<and> map fst scored = map strip (sentences_of text)
        \<and> length (key_points r) = length (importance_scores r)
        \<and> length (key_points r) = min 3 (length (sentences_of text))
        \<and> sorted_wrt (\<lambda>a b. b \<le> a) (importance_scores r)
        \<and> (\<exists>rest. mset scored = mset (zip (key_points r) (importance_scores r)) + mset rest
              \<and> (\<forall>a \<in> set (importance_scores r). \<forall>b \<in> snd ` set rest. b \<le> a)))"
proof (cases "sentence_scores bert cosine text")
  case (Inl e)
  then have "bert 512 text = Inl e \<or> (\<exists>s \<in> set (sentences_of text). bert 128 s = Inl e)"
    unfolding sentence_scores_def sentences_of_def
    by (cases "bert 512 text") (auto dest: score_sentences_fail)
  with Inl show ?thesis
    by (simp add: extract_key_insights_def)
next
  case (Inr scored)
  define srt where "srt = sort_desc snd scored"
  define r where "r = \<lparr>key_points = map fst (take 3 srt), importance_scores = map snd (take 3 srt)\<rparr>"
  have ex: "extract_key_insights bert cosine text = Inr r"
    by (simp add: extract_key_insights_def Inr r_def srt_def Let_def)
  have fsts: "map fst scored = map strip (sentences_of text)"
    using Inr unfolding sentence_scores_def sentences_of_def
    by (auto split: sum.splits dest: score_sentences_ok)
  then have len: "length scored = length (sentences_of text)"
    by (metis length_map)
  have l1: "length (key_points r) = length (importance_scores r)"
    by (simp add: r_def)
  have l2: "length (key_points r) = min 3 (length (sentences_of text))"
    by (simp add: r_def srt_def sort_desc_length len min.commute)
  have desc: "sorted_wrt (\<lambda>a b. b \<le> a) (map snd srt)"
    unfolding srt_def by (rule sort_desc_sorted)
  have s: "sorted_wrt (\<lambda>a b. b \<le> a) (importance_scores r)"
    using desc by (simp add: r_def take_map [symmetric] sorted_wrt_take_desc)
  have z: "zip (key_points r) (importance_scores r) = take 3 srt"
    by (simp add: r_def zip_map_fst_snd)
  have m: "mset scored = mset (zip (key_points r) (importance_scores r)) + mset (drop 3 srt)"
    unfolding z by (simp add: union_code srt_def sort_desc_mset flip: mset_append)
  have top: "\<forall>a \<in> set (importance_scores r). \<forall>b \<in> snd ` set (drop 3 srt). b \<le> a"
    using take_drop_desc [OF desc, of 3] by (simp add: r_def)
  show ?thesis
    using ex Inr fsts l1 l2 s m top by blast
qed

lemma demo_extract:
  "extract_key_insights demo_bert demo_cosine demo_text
     = Inr \<lparr>key_points = [''defg'', ''c'', ''hij''], importance_scores = [5 / 19, 3 / 19, 3 / 19]\<rparr>"
  by code_simp

lemma demo_sentences: "sentences_of demo_text = [''ab'', '' c '', '' defg'', ''hij'']"
  by code_simp

theorem extract_key_insights_top3_witness:
  "\<exists>r. extract_key_insights demo_bert demo_cosine demo_text = Inr r
      \<and> length (key_points r) = 3 \<and> length (importance_scores r) = 3
      \<and> sorted_wrt (\<lambda>a b. b \<le> a) (importance_scores r)
      \<and> (\<forall>a \<in> set (importance_scores r). 2 / 19 \<le> a)"
  using extract_key_insights_top3 [of demo_bert demo_cosine demo_text]
  by (simp add: demo_extract demo_sentences)


section \<open>What a hypothesis entry holds\<close>

text \<open>
  Claim C10.  When the literature analysis was loaded and the hypothesis stage returned,
  the mapping returned is the one saved to \<^verbatim>\<open>generated_hypotheses.json\<close>, and each of its
  entries belongs to an entry of the same key in the literature analysis: its
  \<^verbatim>\<open>context\<close> is the newline-join of that entry's \<^verbatim>\<open>key_insights\<close>, and its
  \<^verbatim>\<open>generated_hypothesis\<close> is a response of the endpoint to the prompt made of that
  context, stored as it came; all that is asked of the response is that it is truthy.
\<close>

theorem hypothesis_entry_contents:
  "load_json env (literature_path env) st = Inr lit
     \<and> fst (generate_hypotheses env post st) = Inr hyps
   \<longrightarrow> files (snd (generate_hypotheses env post st)) (hypotheses_path env)
         = Some (dumps env (JObj hyps))
       \<and> (\<forall>(k, v) \<in> set hyps.
             \<exists>a ki c r w.
               (k, a) \<in> set lit
               \<and> subscript a ''key_insights'' = Inr ki
               \<and> py_join nl ki = Inr c
               \<and> (\<forall>ss. ki = JArr (map JStr ss) \<longrightarrow> c = join nl ss)
               \<and> fst (post w (hypothesis_prompt c)) = Inr r \<and> truthy r
               \<and> v = JObj [(''context'', JStr c), (''generated_hypothesis'', r)])"
proof (rule impI)
  assume "load_json env (literature_path env) st = Inr lit
     \<and> fst (generate_hypotheses env post st) = Inr hyps"
  then have l: "load_json env (literature_path env) st = Inr lit"
    and r: "fst (generate_hypotheses env post st) = Inr hyps"
    by simp_all
  let ?st1 = "log_msg (LogInfo ''Starting hypothesis generation'') st"
  have run: "fst (hypotheses_loop post lit [] ?st1) = Inr hyps"
    using r by (simp add: generate_hypotheses_loop_result [OF l])
  have f: "files (snd (generate_hypotheses env post st)) (hypotheses_path env)
         = Some (dumps env (JObj hyps))"
    by (simp add: generate_hypotheses_files [OF l r])
  have e: "\<exists>a ki c r w.
               (k, a) \<in> set lit
               \<and> subscript a ''key_insights'' = Inr ki
               \<and> py_join nl ki = Inr c
               \<and> (\<forall>ss. ki = JArr (map JStr ss) \<longrightarrow> c = join nl ss)
               \<and> fst (post w (hypothesis_prompt c)) = Inr r \<and> truthy r
               \<and> v = JObj [(''context'', JStr c), (''generated_hypothesis'', r)]"
    if kv: "(k, v) \<in> set hyps" for k v
  proof -
    from hypotheses_loop_entries [OF run kv]
    obtain a c r w where a: "(k, a) \<in> set lit" and c: "context_of a = Inr c"
      and p: "fst (post w (hypothesis_prompt c)) = Inr r" and t: "truthy r"
      and v: "v = JObj [(''context'', JStr c), (''generated_hypothesis'', r)]"
      by auto
    from c obtain ki where ki: "subscript a ''key_insights'' = Inr ki" and j: "py_join nl ki = Inr c"
      by (cases "subscript a ''key_insights''") (simp_all add: context_of_def)
    have s: "\<forall>ss. ki = JArr (map JStr ss) \<longrightarrow> c = join nl ss"
      using j by (auto simp: py_join_strings)
    show ?thesis
      using a ki j s p t v by (intro exI conjI)
  qed
  show "files (snd (generate_hypotheses env post st)) (hypotheses_path env)
         = Some (dumps env (JObj hyps))
       \<and> (\<forall>(k, v) \<in> set hyps.
             \<exists>a ki c r w.
               (k, a) \<in> set lit
               \<and> subscript a ''key_insights'' = Inr ki
               \<and> py_join nl ki = Inr c
               \<and> (\<forall>ss. ki = JArr (map JStr ss) \<longrightarrow> c = join nl ss)
               \<and> fst (post w (hypothesis_prompt c)) = Inr r \<and> truthy r
               \<and> v = JObj [(''context'', JStr c), (''generated_hypothesis'', r)])"
  proof (rule conjI [OF f], rule ballI)
    fix x
    assume x: "x \<in> set hyps"
    obtain k v where kv: "x = (k, v)" by (cases x)
    show "case x of (k, v) \<Rightarrow> \<exists>a ki c r w.
               (k, a) \<in> set lit
               \<and> subscript a ''key_insights'' = Inr ki
               \<and> py_join nl ki = Inr c
               \<and> (\<forall>ss. ki = JArr (map JStr ss) \<longrightarrow> c = join nl ss)
               \<and> fst (post w (hypothesis_prompt c)) = Inr r \<and> truthy r
               \<and> v = JObj [(''context'', JStr c), (''generated_hypothesis'', r)]"
      unfolding kv prod.case using e [of k v] x kv by simp
  qed
qed

theorem hypothesis_entry_contents_witness:
  "load_json sample_env (literature_path sample_env) sample_state = Inr sample_lit
   \<and> fst (generate_hypotheses sample_env sample_post sample_state)
       = Inr [(''PaperA'', JObj [(''context'', JStr (''a1'' @ nl @ ''a2'')),
                                 (''generated_hypothesis'', JObj [(''text'', JStr ''H'')])]),
              (''PaperC'', JObj [(''context'', JStr ''c1''),
                                 (''generated_hypothesis'', JObj [(''text'', JStr ''H'')])])]
   \<and> files (snd (generate_hypotheses sample_env sample_post sample_state))
        (hypotheses_path sample_env)
       = Some (dumps sample_env (JObj
           [(''PaperA'', JObj [(''context'', JStr (''a1'' @ nl @ ''a2'')),
                               (''generated_hypothesis'', JObj [(''text'', JStr ''H'')])]),
            (''PaperC'', JObj [(''context'', JStr ''c1''),
                               (''generated_hypothesis'', JObj [(''text'', JStr ''H'')])])]))"
  using hypothesis_entry_contents
          [of sample_env sample_state sample_lit sample_post
              "[(''PaperA'', JObj [(''context'', JStr (''a1'' @ nl @ ''a2'')),
                               (''generated_hypothesis'', JObj [(''text'', JStr ''H'')])]),
                (''PaperC'', JObj [(''context'', JStr ''c1''),
                               (''generated_hypothesis'', JObj [(''text'', JStr ''H'')])])]",
           THEN mp, THEN conjunct1]
        sample_load sample_hypotheses_run
  by (simp only: simp_thms)

end
